theory Spec2Isabelle
  imports Main
begin

section \<open>JavaScript strings\<close>

text \<open>
  A JavaScript string is a sequence of UTF-16 code units. The model uses \<^typ>\<open>string\<close>
  and reads each \<^typ>\<open>char\<close> as one code unit below 256 (the Latin-1 range), so every
  function below works unit by unit exactly as its JavaScript counterpart does on such
  strings. \<open>undefined\<close> is \<open>None\<close> of an option type.
\<close>

definition startsWith :: "string \<Rightarrow> string \<Rightarrow> bool" where
  \<comment> \<open>\<^verbatim>\<open>s.startsWith(p)\<close>\<close>
  "startsWith s p = (take (length p) s = p)"

fun split :: "char \<Rightarrow> string \<Rightarrow> string list" where
  \<comment> \<open>\<^verbatim>\<open>s.split(sep)\<close> for a one-character separator: never an empty array\<close>
  "split sep [] = [[]]"
| "split sep (c # cs) =
     (if c = sep then [] # split sep cs
      else (case split sep cs of
              [] \<Rightarrow> [[c]]
            | w # ws \<Rightarrow> (c # w) # ws))"

fun at :: "'a list \<Rightarrow> nat \<Rightarrow> 'a option" where
  \<comment> \<open>\<^verbatim>\<open>xs[i]\<close>: \<open>undefined\<close> out of range\<close>
  "at [] i = None"
| "at (x # xs) 0 = Some x"
| "at (x # xs) (Suc i) = at xs i"

definition interpolate :: "string option \<Rightarrow> string" where
  \<comment> \<open>a value inside a template literal: \<open>undefined\<close> prints as the word\<close>
  "interpolate v = (case v of None \<Rightarrow> ''undefined'' | Some s \<Rightarrow> s)"

definition isAlnum :: "char \<Rightarrow> bool" where
  \<comment> \<open>the class \<^verbatim>\<open>[a-z0-9]\<close> under the flag \<^verbatim>\<open>i\<close> (no \<^verbatim>\<open>u\<close> flag: a code unit
      from 128 on never folds onto an ASCII letter)\<close>
  "isAlnum c =
     (let n = (of_char c :: nat)
      in (48 \<le> n \<and> n \<le> 57) \<or> (65 \<le> n \<and> n \<le> 90) \<or> (97 \<le> n \<and> n \<le> 122))"

definition isUpper :: "char \<Rightarrow> bool" where
  \<comment> \<open>the code units below 256 that \<^verbatim>\<open>toLowerCase\<close> changes: A-Z and the Latin-1
      capitals U+00C0..U+00DE without the multiplication sign U+00D7\<close>
  "isUpper c =
     (let n = (of_char c :: nat)
      in (65 \<le> n \<and> n \<le> 90) \<or> (192 \<le> n \<and> n \<le> 214) \<or> (216 \<le> n \<and> n \<le> 222))"

definition lowerChar :: "char \<Rightarrow> char" where
  "lowerChar c = (if isUpper c then char_of (of_char c + (32::nat)) else c)"

definition toLowerCase :: "string \<Rightarrow> string" where
  "toLowerCase s = map lowerChar s"

definition replaceNonAlnum :: "string \<Rightarrow> string" where
  \<comment> \<open>\<^verbatim>\<open>s.replace(/[^a-z0-9]/gi, '_')\<close>\<close>
  "replaceNonAlnum s = map (\<lambda>c. if isAlnum c then c else CHR ''_'') s"

fun occurrences :: "string \<Rightarrow> string \<Rightarrow> nat" where
  \<comment> \<open>the number of positions of \<open>s\<close> at which \<open>v\<close> occurs\<close>
  "occurrences v [] = (if v = [] then 1 else 0)"
| "occurrences v (c # cs) = (if startsWith (c # cs) v then 1 else 0) + occurrences v cs"


section \<open>Data model\<close>

text \<open>The argument of \<^verbatim>\<open>handleFile\<close>: of a \<^verbatim>\<open>File\<close> the code reads only \<^verbatim>\<open>type\<close>.\<close>

record upload_file =
  ftype :: string

text \<open>The global \<^verbatim>\<open>uploadedFile\<close>; \<open>base64\<close> holds \<^verbatim>\<open>split(',')[1]\<close>, which can be
  \<open>undefined\<close>.\<close>

record uploaded =
  base64 :: "string option"
  mimeType :: string

text \<open>The four \<^verbatim>\<open>select\<close> values read by the click handler.\<close>

record selections =
  pose :: string
  expression :: string
  style :: string
  cameraAngle :: string

text \<open>The request handed to \<^verbatim>\<open>ai.models.generateContent\<close>.\<close>

datatype modality = IMAGE | TEXT

record request =
  model :: string
  image_data :: "string option"
  image_mimeType :: string
  prompt_text :: string
  responseModalities :: "modality list"

text \<open>
  Modelled from the spec: the response type of the generation service, which the
  repository imports from a library. The response exposes \<^verbatim>\<open>candidates[0].content.parts\<close>,
  a list of content parts, each optionally carrying \<^verbatim>\<open>inlineData: {data, mimeType}\<close>.
  Each level of the path may be missing, in which case reading through it throws.
\<close>

datatype blob = Blob (data: string) (blob_mimeType: string)

datatype part = Part (inlineData: "blob option") (part_text: "string option")

datatype content = Content (parts: "part list option")

datatype candidate = Candidate (content: "content option")

datatype response = Response (candidates: "candidate list option")

datatype error =
    ServiceError string  \<comment> \<open>whatever \<^verbatim>\<open>generateContent\<close> throws or rejects with\<close>
  | TypeError            \<comment> \<open>reading a property of \<open>undefined\<close>, iterating \<open>undefined\<close>\<close>

datatype outcome = Rejected error | Fulfilled response

text \<open>The children of \<^verbatim>\<open>resultsGrid\<close>. A placeholder carries the number of its creation,
  which stands for the identity of the DOM node; the other tiles are never looked up.\<close>

record result =
  img_src :: string
  img_alt :: string
  href :: string
  download :: string

datatype tile =
    Placeholder nat
  | ErrorTile string
  | ResultContainer result

text \<open>What the page does to the outside, in order.\<close>

datatype effect =
    Alert string
  | ConsoleError string error
  | GenerateContent request
  | SetControlsDisabled bool
  | LoadingShown
  | LoadingHidden

record page =
  uploadedFile :: "uploaded option"
  imagePreview_src :: string
  imagePreview_hidden :: bool
  uploadPlaceholder_hidden :: bool
  generateBtn_disabled :: bool
  poseSelect_disabled :: bool
  expressionSelect_disabled :: bool
  styleSelect_disabled :: bool
  cameraAngleSelect_disabled :: bool
  loadingIndicator_hidden :: bool
  loadingMessage :: string
  resultsGrid :: "tile list"
  created :: nat
  effects :: "effect list"

text \<open>The variables a suspended click handler keeps: its placeholder and its prompt.\<close>

record attempt =
  placeholder :: nat
  combined :: string

text \<open>An \<^verbatim>\<open>img\<close> element with its two handlers set, waiting for load or error.\<close>

record loading =
  img_placeholder :: nat
  container :: result


section \<open>Upload handler\<close>

definition alert :: "string \<Rightarrow> page \<Rightarrow> page" where
  "alert msg st = st\<lparr>effects := effects st @ [Alert msg]\<rparr>"

definition handleFile :: "upload_file \<Rightarrow> page \<Rightarrow> page \<times> upload_file option" where
  \<comment> \<open>the second component is the file a \<^verbatim>\<open>FileReader\<close> has been started on\<close>
  "handleFile f st =
     (if \<not> startsWith (ftype f) ''image/''
      then (alert ''Please select an image file.'' st, None)
      else (st, Some f))"

definition handleFileSelect :: "upload_file list \<Rightarrow> page \<Rightarrow> page \<times> upload_file option" where
  \<comment> \<open>\<^verbatim>\<open>target.files?.[0]\<close>; the drop listener passes \<^verbatim>\<open>files[0]\<close> the same way\<close>
  "handleFileSelect files st =
     (case files of [] \<Rightarrow> (st, None) | f # _ \<Rightarrow> handleFile f st)"

definition reader_onload :: "upload_file \<Rightarrow> string \<Rightarrow> page \<Rightarrow> page" where
  \<comment> \<open>\<open>res\<close> is \<^verbatim>\<open>reader.result\<close>, the data URL the browser produced\<close>
  "reader_onload f res st =
     (let base64String = at (split CHR '','' res) 1
      in st\<lparr>uploadedFile := Some \<lparr>base64 = base64String, mimeType = ftype f\<rparr>,
            imagePreview_src := ''data:'' @ ftype f @ '';base64,'' @ interpolate base64String,
            imagePreview_hidden := False,
            uploadPlaceholder_hidden := True,
            generateBtn_disabled := False\<rparr>)"


section \<open>Prompt composer\<close>

definition combinedPrompt :: "selections \<Rightarrow> string" where
  "combinedPrompt s =
     pose s @ '', with '' @ expression s @ '', '' @ style s @ '', captured '' @ cameraAngle s"

definition template_head :: string where
  "template_head = ''From the image provided, change the subject to be ''"

definition template_tail :: string where
  "template_tail = ''. It is critical to keep the subject's face and the original background unchanged. Only alter the body's pose and expression.''"

definition textPart :: "string \<Rightarrow> string" where
  "textPart prompt = template_head @ prompt @ template_tail"


section \<open>Generation\<close>

definition generateImage_call :: "string \<Rightarrow> page \<Rightarrow> page \<times> request option" where
  \<comment> \<open>\<^verbatim>\<open>generateImage\<close> up to its \<^verbatim>\<open>await\<close>; \<open>None\<close> is the early \<^verbatim>\<open>return null\<close>\<close>
  "generateImage_call prompt st =
     (case uploadedFile st of
        None \<Rightarrow> (st, None)
      | Some u \<Rightarrow>
          (let rq = \<lparr>model = ''gemini-2.5-flash-image-preview'',
                     image_data = base64 u,
                     image_mimeType = mimeType u,
                     prompt_text = textPart prompt,
                     responseModalities = [IMAGE, TEXT]\<rparr>
           in (st\<lparr>effects := effects st @ [GenerateContent rq]\<rparr>, Some rq)))"

definition response_parts :: "response \<Rightarrow> error + part list" where
  \<comment> \<open>\<^verbatim>\<open>response.candidates[0].content.parts\<close>, as the \<^verbatim>\<open>for\<close> loop needs it\<close>
  "response_parts r =
     (case candidates r of
        None \<Rightarrow> Inl TypeError
      | Some cs \<Rightarrow>
          (case at cs 0 of
             None \<Rightarrow> Inl TypeError
           | Some c \<Rightarrow>
               (case content c of
                  None \<Rightarrow> Inl TypeError
                | Some ct \<Rightarrow>
                    (case parts ct of
                       None \<Rightarrow> Inl TypeError
                     | Some ps \<Rightarrow> Inr ps))))"

fun firstInline :: "part list \<Rightarrow> string option" where
  \<comment> \<open>the \<^verbatim>\<open>for\<close> loop: the first part with \<^verbatim>\<open>inlineData\<close>, as a data URL\<close>
  "firstInline [] = None"
| "firstInline (p # ps) =
     (case inlineData p of
        Some b \<Rightarrow> Some (''data:'' @ blob_mimeType b @ '';base64,'' @ data b)
      | None \<Rightarrow> firstInline ps)"

definition console_message :: "string \<Rightarrow> string" where
  "console_message prompt = ''API Error for prompt \"'' @ prompt @ ''\":''"

definition generateImage_resume :: "string \<Rightarrow> outcome \<Rightarrow> page \<Rightarrow> page \<times> (error + string option)" where
  \<comment> \<open>\<^verbatim>\<open>generateImage\<close> from its \<^verbatim>\<open>await\<close> on; \<open>Inl\<close> is the error thrown again\<close>
  "generateImage_resume prompt oc st =
     (let thrown = (case oc of
                      Rejected e \<Rightarrow> Inl e
                    | Fulfilled r \<Rightarrow>
                        (case response_parts r of
                           Inl e \<Rightarrow> Inl e
                         | Inr ps \<Rightarrow> Inr (firstInline ps)))
      in case thrown of
           Inl e \<Rightarrow> (st\<lparr>effects := effects st @ [ConsoleError (console_message prompt) e]\<rparr>, Inl e)
         | Inr v \<Rightarrow> (st, Inr v))"

definition truthy :: "string \<Rightarrow> bool" where
  \<comment> \<open>\<^verbatim>\<open>if (resultSrc)\<close> for a string: the empty string is falsy, as \<open>null\<close> is\<close>
  "truthy s = (s \<noteq> [])"

definition cleanPrompt :: "string \<Rightarrow> string" where
  "cleanPrompt prompt = toLowerCase (replaceNonAlnum prompt)"

definition build_container :: "string \<Rightarrow> string \<Rightarrow> result" where
  "build_container resultSrc prompt =
     \<lparr>img_src = resultSrc,
      img_alt = ''Generated image: '' @ prompt,
      href = resultSrc,
      download = ''generated_'' @ cleanPrompt prompt @ ''.png''\<rparr>"

definition createErrorTile :: "string \<Rightarrow> tile" where
  "createErrorTile message = ErrorTile message"

fun replaceChild :: "tile \<Rightarrow> tile \<Rightarrow> tile list \<Rightarrow> tile list" where
  "replaceChild new old [] = []"
| "replaceChild new old (t # ts) =
     (if t = old then new # ts else t # replaceChild new old ts)"

definition swap_placeholder :: "tile \<Rightarrow> nat \<Rightarrow> page \<Rightarrow> page" where
  \<comment> \<open>\<^verbatim>\<open>if (resultsGrid.contains(placeholder)) resultsGrid.replaceChild(t, placeholder)\<close>\<close>
  "swap_placeholder t n st =
     (if Placeholder n \<in> set (resultsGrid st)
      then st\<lparr>resultsGrid := replaceChild t (Placeholder n) (resultsGrid st)\<rparr>
      else st)"

definition setControlsDisabled :: "bool \<Rightarrow> page \<Rightarrow> page" where
  "setControlsDisabled disabled st =
     st\<lparr>generateBtn_disabled := disabled,
        poseSelect_disabled := disabled,
        expressionSelect_disabled := disabled,
        styleSelect_disabled := disabled,
        cameraAngleSelect_disabled := disabled,
        effects := effects st @ [SetControlsDisabled disabled]\<rparr>"

definition hide_loading :: "page \<Rightarrow> page" where
  \<comment> \<open>\<^verbatim>\<open>loadingIndicator.classList.add('hidden')\<close>\<close>
  "hide_loading st = st\<lparr>loadingIndicator_hidden := True, effects := effects st @ [LoadingHidden]\<rparr>"

definition show_loading :: "page \<Rightarrow> page" where
  \<comment> \<open>\<^verbatim>\<open>loadingIndicator.classList.remove('hidden')\<close>\<close>
  "show_loading st = st\<lparr>loadingIndicator_hidden := False, effects := effects st @ [LoadingShown]\<rparr>"

definition click_resume :: "attempt \<Rightarrow> error + string option \<Rightarrow> page \<Rightarrow> page \<times> loading option" where
  \<comment> \<open>the click handler from the value (or the throw) of \<^verbatim>\<open>await generateImage(...)\<close> to
      its end\<close>
  "click_resume a res st =
     (let failed = (\<lambda>message.
            (swap_placeholder (createErrorTile message) (placeholder a) st, None));
          (st1, im) =
            (case res of
               Inr None \<Rightarrow> failed ''Generation failed.''
             | Inr (Some resultSrc) \<Rightarrow>
                 (if truthy resultSrc
                  then (st, Some \<lparr>img_placeholder = placeholder a,
                                  container = build_container resultSrc (combined a)\<rparr>)
                  else failed ''Generation failed.'')
             | Inl e \<Rightarrow> failed ''API error.'')
      in (setControlsDisabled False (hide_loading st1), im))"

definition settle :: "attempt \<Rightarrow> outcome \<Rightarrow> page \<Rightarrow> page \<times> loading option" where
  \<comment> \<open>the service call of attempt \<open>a\<close> settles: both continuations run\<close>
  "settle a oc st =
     (let (st1, res) = generateImage_resume (combined a) oc st
      in click_resume a res st1)"

definition generateBtn_click :: "selections \<Rightarrow> page \<Rightarrow> page \<times> attempt option \<times> loading option" where
  \<comment> \<open>the click handler up to its \<^verbatim>\<open>await\<close>. The attempt is returned while its service
      call is pending\<close>
  "generateBtn_click sel st =
     (case uploadedFile st of
        None \<Rightarrow> (alert ''Please upload an image first.'' st, None, None)
      | Some _ \<Rightarrow>
          (let st1 = setControlsDisabled True st;
               st2 = show_loading st1;
               st3 = st2\<lparr>loadingMessage := ''Generating image...''\<rparr>;
               st4 = st3\<lparr>resultsGrid := []\<rparr>;
               n = created st4;
               st5 = st4\<lparr>created := Suc n\<rparr>;
               st6 = st5\<lparr>resultsGrid := resultsGrid st5 @ [Placeholder n]\<rparr>;
               a = \<lparr>placeholder = n, combined = combinedPrompt sel\<rparr>;
               (st7, rq) = generateImage_call (combined a) st6
           in case rq of
                Some _ \<Rightarrow> (st7, Some a, None)
              | None \<Rightarrow> (let (st8, im) = click_resume a (Inr None) st7 in (st8, None, im))))"

definition img_onload :: "loading \<Rightarrow> page \<Rightarrow> page" where
  "img_onload im st = swap_placeholder (ResultContainer (container im)) (img_placeholder im) st"

definition img_onerror :: "loading \<Rightarrow> page \<Rightarrow> page" where
  "img_onerror im st =
     swap_placeholder (createErrorTile ''Failed to load image.'') (img_placeholder im) st"


section \<open>The page as an event-driven system\<close>

text \<open>
  Between two events the page keeps, besides its DOM and its global, the callbacks that
  are still to run: the file readers that have not fired \<^verbatim>\<open>onload\<close>, the click handlers
  suspended at their \<^verbatim>\<open>await\<close>, and the images that have neither loaded nor failed.
  An event is enabled only when its callback is registered, and each callback runs once.
  The user's click reaches the handler only while the Generate button is enabled; the
  uploader is never disabled.
\<close>

record session =
  dom :: page
  readers :: "upload_file list"
  requests :: "attempt list"
  images :: "loading list"

datatype event =
    FileChosen "upload_file list"
  | ReaderLoaded upload_file string
  | GenerateClicked selections
  | ServiceSettled attempt outcome
  | ImageLoaded loading
  | ImageFailed loading

definition registered :: "'a option \<Rightarrow> 'a list" where
  "registered v = (case v of None \<Rightarrow> [] | Some x \<Rightarrow> [x])"

fun fire :: "event \<Rightarrow> session \<Rightarrow> session option" where
  "fire (FileChosen fs) s =
     (let (st, r) = handleFileSelect fs (dom s)
      in Some (s\<lparr>dom := st, readers := readers s @ registered r\<rparr>))"
| "fire (ReaderLoaded f res) s =
     (if f \<in> set (readers s)
      then Some (s\<lparr>dom := reader_onload f res (dom s), readers := remove1 f (readers s)\<rparr>)
      else None)"
| "fire (GenerateClicked sel) s =
     (if generateBtn_disabled (dom s) then None
      else (let (st, a, im) = generateBtn_click sel (dom s)
            in Some (s\<lparr>dom := st,
                       requests := requests s @ registered a,
                       images := images s @ registered im\<rparr>)))"
| "fire (ServiceSettled a oc) s =
     (if a \<in> set (requests s)
      then (let (st, im) = settle a oc (dom s)
            in Some (s\<lparr>dom := st,
                       requests := remove1 a (requests s),
                       images := images s @ registered im\<rparr>))
      else None)"
| "fire (ImageLoaded im) s =
     (if im \<in> set (images s)
      then Some (s\<lparr>dom := img_onload im (dom s), images := remove1 im (images s)\<rparr>)
      else None)"
| "fire (ImageFailed im) s =
     (if im \<in> set (images s)
      then Some (s\<lparr>dom := img_onerror im (dom s), images := remove1 im (images s)\<rparr>)
      else None)"

fun run :: "event list \<Rightarrow> session \<Rightarrow> session option" where
  "run [] s = Some s"
| "run (e # es) s = (case fire e s of None \<Rightarrow> None | Some s' \<Rightarrow> run es s')"

definition start :: "page \<Rightarrow> session" where
  \<comment> \<open>the script has just run on the page \<open>st\<close> of the markup: \<^verbatim>\<open>uploadedFile = null\<close>, no
      callback registered, nothing done yet\<close>
  "start st =
     \<lparr>dom = st\<lparr>uploadedFile := None, created := 0, effects := []\<rparr>,
      readers = [], requests = [], images = []\<rparr>"

subsection \<open>Pages, files and responses to run the handlers on\<close>

definition blank_page :: page where
  \<comment> \<open>a page to run examples on: nothing uploaded, the button off, no results\<close>
  "blank_page =
     \<lparr>uploadedFile = None,
      imagePreview_src = [],
      imagePreview_hidden = True,
      uploadPlaceholder_hidden = False,
      generateBtn_disabled = True,
      poseSelect_disabled = False,
      expressionSelect_disabled = False,
      styleSelect_disabled = False,
      cameraAngleSelect_disabled = False,
      loadingIndicator_hidden = True,
      loadingMessage = [],
      resultsGrid = [],
      created = 0,
      effects = []\<rparr>"


definition png :: upload_file where
  "png = \<lparr>ftype = ''image/png''\<rparr>"

definition choice :: selections where
  "choice = \<lparr>pose = ''standing'', expression = ''a smile'',
              style = ''realistic'', cameraAngle = ''from above''\<rparr>"

definition ready_page :: page where
  \<comment> \<open>\<open>blank_page\<close> after a three-byte PNG-typed file has been read\<close>
  "ready_page = reader_onload png ''data:image/png;base64,QUJD'' blank_page"

definition text_only :: response where
  \<comment> \<open>a response whose only part is text\<close>
  "text_only = Response (Some [Candidate (Some (Content (Some [Part None (Some ''no image'')])))])"

definition with_image :: response where
  \<comment> \<open>a response with a text part and then the inline image of the specification's example\<close>
  "with_image =
     Response (Some [Candidate (Some (Content (Some
       [Part None (Some ''here it is''), Part (Some (Blob ''AAAA'' ''image/png'')) None])))])"

definition first_attempt :: attempt where
  \<comment> \<open>the handler suspended by the first click with \<open>choice\<close> selected\<close>
  "first_attempt = \<lparr>placeholder = 0, combined = combinedPrompt choice\<rparr>"

definition first_image :: loading where
  \<comment> \<open>the image that \<open>first_attempt\<close> builds from \<open>with_image\<close>\<close>
  "first_image =
     \<lparr>img_placeholder = 0,
      container = build_container ''data:image/png;base64,AAAA'' (combinedPrompt choice)\<rparr>"


definition overtaking :: "event list" where
  \<comment> \<open>an upload and a click, then, with the first request pending, a second upload, which
      enables the button again, and a second click\<close>
  "overtaking =
     [FileChosen [png], ReaderLoaded png ''data:image/png;base64,QUJD'', GenerateClicked choice,
      FileChosen [png], ReaderLoaded png ''data:image/png;base64,QUJD'', GenerateClicked choice]"

definition overtaken_page :: page where
  \<comment> \<open>the page after \<open>overtaking\<close>: the request of \<open>first_attempt\<close> is still pending, the
      grid holds the second placeholder\<close>
  "overtaken_page =
     (case run overtaking (start blank_page) of None \<Rightarrow> blank_page | Some s \<Rightarrow> dom s)"


section \<open>Properties named by the specification\<close>

text \<open>
  The specification's file-name rule, written out on the characters themselves and
  without any function of the code: a digit or a small letter stays, a capital letter
  becomes the small letter at the same place of the alphabet, and every other character
  becomes an underscore.
\<close>

definition digits :: string where
  "digits = ''0123456789''"

definition lower_case :: string where
  "lower_case = ''abcdefghijklmnopqrstuvwxyz''"

definition upper_case :: string where
  "upper_case = ''ABCDEFGHIJKLMNOPQRSTUVWXYZ''"

definition file_name_char :: "char \<Rightarrow> char" where
  "file_name_char c =
     (if c \<in> set digits \<or> c \<in> set lower_case then c
      else (case map_of (zip upper_case lower_case) c of
              Some l \<Rightarrow> l
            | None \<Rightarrow> CHR ''_''))"

definition sanitized :: "string \<Rightarrow> string" where
  "sanitized s = map file_name_char s"

definition UploadedImage_invariant :: "page \<Rightarrow> bool" where
  \<comment> \<open>the specification's invariant: absent, or a non-empty payload and an image type\<close>
  "UploadedImage_invariant st =
     (case uploadedFile st of
        None \<Rightarrow> True
      | Some u \<Rightarrow>
          (case base64 u of None \<Rightarrow> False | Some b \<Rightarrow> b \<noteq> [])
          \<and> startsWith (mimeType u) ''image/'')"

definition image_typed :: "page \<Rightarrow> bool" where
  \<comment> \<open>the part of it that the type check of \<^verbatim>\<open>handleFile\<close> establishes\<close>
  "image_typed st =
     (case uploadedFile st of
        None \<Rightarrow> True
      | Some u \<Rightarrow> startsWith (mimeType u) ''image/'')"

definition typed_readers :: "session \<Rightarrow> bool" where
  \<comment> \<open>what holds between events: the stored upload and every file still being read have
      an image type\<close>
  "typed_readers s =
     (image_typed (dom s) \<and> (\<forall>f\<in>set (readers s). startsWith (ftype f) ''image/''))"

definition fresh :: "session \<Rightarrow> bool" where
  \<comment> \<open>placeholders are numbered in the order of their creation: those kept by a waiting
      callback are older than the next one, and no two suspended handlers keep the same
      one\<close>
  "fresh s =
     ((\<forall>a\<in>set (requests s). placeholder a < created (dom s))
      \<and> (\<forall>im\<in>set (images s). img_placeholder im < created (dom s))
      \<and> distinct (map placeholder (requests s)))"

fun settled :: "event list \<Rightarrow> attempt list" where
  \<comment> \<open>the attempts whose service call settles in a sequence of events, in order\<close>
  "settled [] = []"
| "settled (ServiceSettled a oc # es) = a # settled es"
| "settled (e # es) = settled es"


section \<open>Prompt composer: the shape of the instruction\<close>

lemma occurrences_at_least_once: "s = a @ v @ b \<Longrightarrow> 1 \<le> occurrences v s"
proof (induction a arbitrary: s)
  case Nil
  show ?case
  proof (cases s)
    case Nil
    with \<open>s = [] @ v @ b\<close> show ?thesis by simp
  next
    case (Cons c cs)
    have "startsWith s v" using \<open>s = [] @ v @ b\<close> by (simp add: startsWith_def)
    with Cons show ?thesis by simp
  qed
next
  case (Cons x a)
  then show ?case by simp
qed

text \<open>
  Claim C1, as amended. The composed prompt is the four values, each written once at its
  own place in the order pose, expression, style, camera angle, with \<open>", with "\<close>, \<open>", "\<close>
  and \<open>", captured "\<close> between them; the instruction is the fixed head, the composed
  prompt unchanged, and the fixed tail that states the two constraints. So each value
  occurs in the prompt and in the instruction at least once. It occurs more often when
  another value, a separator, the head or the tail contains it too.
\<close>

theorem textPart_combinedPrompt:
  "combinedPrompt s =
     pose s @ '', with '' @ expression s @ '', '' @ style s @ '', captured '' @ cameraAngle s
   \<and> textPart (combinedPrompt s) =
       ''From the image provided, change the subject to be '' @ combinedPrompt s
       @ ''. It is critical to keep the subject's face and the original background unchanged. Only alter the body's pose and expression.''
   \<and> 1 \<le> occurrences (pose s) (combinedPrompt s)
   \<and> 1 \<le> occurrences (expression s) (combinedPrompt s)
   \<and> 1 \<le> occurrences (style s) (combinedPrompt s)
   \<and> 1 \<le> occurrences (cameraAngle s) (combinedPrompt s)
   \<and> 1 \<le> occurrences (pose s) (textPart (combinedPrompt s))
   \<and> 1 \<le> occurrences (expression s) (textPart (combinedPrompt s))
   \<and> 1 \<le> occurrences (style s) (textPart (combinedPrompt s))
   \<and> 1 \<le> occurrences (cameraAngle s) (textPart (combinedPrompt s))"
proof -
  let ?c = "combinedPrompt s" and ?out = "textPart (combinedPrompt s)"
  have c: "?c = pose s @ '', with '' @ expression s @ '', '' @ style s
                 @ '', captured '' @ cameraAngle s"
    by (simp add: combinedPrompt_def)
  have out: "?out = template_head @ ?c @ template_tail"
    by (simp add: textPart_def)
  have shown: "?out = ''From the image provided, change the subject to be '' @ ?c
       @ ''. It is critical to keep the subject's face and the original background unchanged. Only alter the body's pose and expression.''"
    by (simp only: out template_head_def template_tail_def)
  have cp: "1 \<le> occurrences (pose s) ?c"
    by (rule occurrences_at_least_once [where a = "[]"]) (simp add: c)
  have ce: "1 \<le> occurrences (expression s) ?c"
    by (rule occurrences_at_least_once [where a = "pose s @ '', with ''"]) (simp add: c)
  have cy: "1 \<le> occurrences (style s) ?c"
    by (rule occurrences_at_least_once
          [where a = "pose s @ '', with '' @ expression s @ '', ''"]) (simp add: c)
  have cc: "1 \<le> occurrences (cameraAngle s) ?c"
    by (rule occurrences_at_least_once
          [where a = "pose s @ '', with '' @ expression s @ '', '' @ style s @ '', captured ''"
             and b = "[]"]) (simp add: c)
  have op: "1 \<le> occurrences (pose s) ?out"
    by (rule occurrences_at_least_once [where a = template_head]) (simp add: textPart_def c)
  have oe: "1 \<le> occurrences (expression s) ?out"
    by (rule occurrences_at_least_once [where a = "template_head @ pose s @ '', with ''"])
       (simp add: textPart_def c)
  have oy: "1 \<le> occurrences (style s) ?out"
    by (rule occurrences_at_least_once
          [where a = "template_head @ pose s @ '', with '' @ expression s @ '', ''"])
       (simp add: textPart_def c)
  have oc: "1 \<le> occurrences (cameraAngle s) ?out"
    by (rule occurrences_at_least_once
          [where a = "template_head @ pose s @ '', with '' @ expression s @ '', '' @ style s
                      @ '', captured ''"])
       (simp add: textPart_def c)
  from c shown cp ce cy cc op oe oy oc show ?thesis by blast
qed

text \<open>
  The claim as first written, each value exactly once, fails when the style is
  \<open>natural\<close> and the expression \<open>a natural smile\<close>: the style is then there twice, in the
  prompt and so in the instruction.
\<close>

theorem exactly_once_counterexample:
  "occurrences ''natural''
     (combinedPrompt \<lparr>pose = ''standing'', expression = ''a natural smile'',
                      style = ''natural'', cameraAngle = ''from above''\<rparr>) = 2
   \<and> occurrences ''natural''
       (textPart (combinedPrompt \<lparr>pose = ''standing'', expression = ''a natural smile'',
                                  style = ''natural'', cameraAngle = ''from above''\<rparr>)) = 2"
  by code_simp


section \<open>Validation failures\<close>

text \<open>
  Claim C3. A click on Generate while \<^verbatim>\<open>uploadedFile\<close> is null only raises the alert: no
  request is sent, no handler stays suspended, and the page, its results grid included,
  is as before.
\<close>

theorem click_without_upload:
  assumes "uploadedFile st = None"
  shows "generateBtn_click sel st =
           (st\<lparr>effects := effects st @ [Alert ''Please upload an image first.'']\<rparr>, None, None)"
  using assms by (simp add: generateBtn_click_def alert_def)

theorem click_without_upload_witness:
  "uploadedFile blank_page = None
   \<and> generateBtn_click \<lparr>pose = ''standing'', expression = ''a smile'',
                         style = ''realistic'', cameraAngle = ''from above''\<rparr> blank_page =
       (blank_page\<lparr>effects := effects blank_page @ [Alert ''Please upload an image first.'']\<rparr>,
        None, None)"
proof -
  have h: "uploadedFile blank_page = None" by (simp add: blank_page_def)
  from h click_without_upload [OF h] show ?thesis by blast
qed

text \<open>
  Claim C4. A file whose type does not start with \<open>image/\<close> only raises the alert: no
  reader is started, and the stored upload, the preview and the state of the Generate
  button are as before.
\<close>

theorem handleFile_rejects:
  assumes "\<not> startsWith (ftype f) ''image/''"
  shows "handleFile f st =
           (st\<lparr>effects := effects st @ [Alert ''Please select an image file.'']\<rparr>, None)"
  using assms by (simp add: handleFile_def alert_def)

theorem handleFile_rejects_witness:
  "\<not> startsWith (ftype \<lparr>ftype = ''text/plain''\<rparr>) ''image/''
   \<and> handleFile \<lparr>ftype = ''text/plain''\<rparr> blank_page =
       (blank_page\<lparr>effects := effects blank_page @ [Alert ''Please select an image file.'']\<rparr>,
        None)"
proof -
  have h: "\<not> startsWith (ftype \<lparr>ftype = ''text/plain''\<rparr>) ''image/''"
    by (simp add: startsWith_def)
  from h handleFile_rejects [OF h] show ?thesis by blast
qed


section \<open>The generation handler, step by step\<close>

lemma firstInline_skip:
  "\<forall>p\<in>set pre. inlineData p = None \<Longrightarrow> firstInline (pre @ ps) = firstInline ps"
  by (induction pre) simp_all

lemma firstInline_none: "\<forall>p\<in>set ps. inlineData p = None \<Longrightarrow> firstInline ps = None"
  by (induction ps) simp_all

lemma firstInline_truthy: "firstInline ps = Some src \<Longrightarrow> truthy src"
  by (induction ps) (auto simp: truthy_def split: option.splits)

lemma char_eq_iff: "(c = d) = (of_char c = (of_char d :: nat))"
  by auto

lemma char_of_is: "(char_of (n::nat) = c) = (n mod 256 = of_char c)"
  by (simp add: char_of_eq_iff take_bit_eq_mod)

lemma char_is_char_of: "(c = char_of (n::nat)) = (n mod 256 = of_char c)"
  using char_of_is [of n c] by auto

lemma in_digits:
  "c \<in> set digits \<longleftrightarrow> 48 \<le> (of_char c :: nat) \<and> (of_char c :: nat) \<le> 57"
  unfolding digits_def by (simp add: char_eq_iff [of c]) arith

lemma in_lower_case:
  "c \<in> set lower_case \<longleftrightarrow> 97 \<le> (of_char c :: nat) \<and> (of_char c :: nat) \<le> 122"
  unfolding lower_case_def by (simp add: char_eq_iff [of c]) arith

lemma upper_to_lower:
  "map_of (zip upper_case lower_case) c =
     (if 65 \<le> (of_char c :: nat) \<and> (of_char c :: nat) \<le> 90
      then Some (char_of (of_char c + (32::nat))) else None)"
proof (cases "65 \<le> (of_char c :: nat) \<and> (of_char c :: nat) \<le> 90")
  case False
  then show ?thesis
    unfolding upper_case_def lower_case_def by (simp add: char_eq_iff [of c]) arith
next
  case True
  define n where "n = (of_char c :: nat)"
  with True have "65 \<le> n \<and> n \<le> 90" by simp
  then have "n = 65 \<or> n = 66 \<or> n = 67 \<or> n = 68 \<or> n = 69 \<or> n = 70 \<or> n = 71 \<or> n = 72 \<or> n = 73 \<or> n = 74 \<or> n = 75 \<or> n = 76 \<or> n = 77 \<or> n = 78 \<or> n = 79 \<or> n = 80 \<or> n = 81 \<or> n = 82 \<or> n = 83 \<or> n = 84 \<or> n = 85 \<or> n = 86 \<or> n = 87 \<or> n = 88 \<or> n = 89 \<or> n = 90"
    by arith
  then show ?thesis
    unfolding upper_case_def lower_case_def n_def
    by (elim disjE) (simp_all add: char_eq_iff [of c] char_is_char_of)
qed

lemma code_char_is_file_name_char:
  "lowerChar (if isAlnum c then c else CHR ''_'') = file_name_char c"
  by (auto simp: lowerChar_def isAlnum_def isUpper_def file_name_char_def in_digits
        in_lower_case upper_to_lower Let_def)

lemma cleanPrompt_sanitized: "cleanPrompt s = sanitized s"
  by (simp add: cleanPrompt_def sanitized_def toLowerCase_def replaceNonAlnum_def
        code_char_is_file_name_char)

lemma click_with_upload:
  assumes "uploadedFile st = Some u"
  shows "generateBtn_click sel st =
    (st\<lparr>generateBtn_disabled := True, poseSelect_disabled := True,
        expressionSelect_disabled := True, styleSelect_disabled := True,
        cameraAngleSelect_disabled := True, loadingIndicator_hidden := False,
        loadingMessage := ''Generating image...'',
        resultsGrid := [Placeholder (created st)],
        created := Suc (created st),
        effects := effects st @
          [SetControlsDisabled True, LoadingShown,
           GenerateContent \<lparr>model = ''gemini-2.5-flash-image-preview'',
                            image_data = base64 u, image_mimeType = mimeType u,
                            prompt_text = textPart (combinedPrompt sel),
                            responseModalities = [IMAGE, TEXT]\<rparr>]\<rparr>,
     Some \<lparr>placeholder = created st, combined = combinedPrompt sel\<rparr>, None)"
  using assms
  by (simp add: generateBtn_click_def setControlsDisabled_def show_loading_def
        generateImage_call_def Let_def)

lemma click_started:
  assumes "uploadedFile st = Some u"
  obtains st1 a where "generateBtn_click sel st = (st1, Some a, None)"
    and "placeholder a = created st" and "combined a = combinedPrompt sel"
    and "resultsGrid st1 = [Placeholder (created st)]"
    and "created st1 = Suc (created st)"
    and "uploadedFile st1 = uploadedFile st"
    and "effects st1 = effects st @
          [SetControlsDisabled True, LoadingShown,
           GenerateContent \<lparr>model = ''gemini-2.5-flash-image-preview'',
                            image_data = base64 u, image_mimeType = mimeType u,
                            prompt_text = textPart (combinedPrompt sel),
                            responseModalities = [IMAGE, TEXT]\<rparr>]"
proof -
  let ?a = "\<lparr>placeholder = created st, combined = combinedPrompt sel\<rparr>"
  let ?st1 = "fst (generateBtn_click sel st)"
  note c = click_with_upload [OF assms, of sel]
  have "generateBtn_click sel st = (?st1, Some ?a, None)" by (simp add: c)
  moreover have "placeholder ?a = created st" "combined ?a = combinedPrompt sel" by simp_all
  moreover have "resultsGrid ?st1 = [Placeholder (created st)]" by (simp add: c)
  moreover have "created ?st1 = Suc (created st)" by (simp add: c)
  moreover have "uploadedFile ?st1 = uploadedFile st" by (simp add: c)
  moreover have "effects ?st1 = effects st @
          [SetControlsDisabled True, LoadingShown,
           GenerateContent \<lparr>model = ''gemini-2.5-flash-image-preview'',
                            image_data = base64 u, image_mimeType = mimeType u,
                            prompt_text = textPart (combinedPrompt sel),
                            responseModalities = [IMAGE, TEXT]\<rparr>]" by (simp add: c)
  ultimately show thesis by (rule that)
qed

lemma settle_thrown:
  "settle a (Rejected e) st =
     (setControlsDisabled False (hide_loading
        (swap_placeholder (ErrorTile ''API error.'') (placeholder a)
          (st\<lparr>effects := effects st @ [ConsoleError (console_message (combined a)) e]\<rparr>))),
      None)"
  by (simp add: settle_def generateImage_resume_def click_resume_def createErrorTile_def)

lemma settle_malformed:
  "response_parts r = Inl e \<Longrightarrow> settle a (Fulfilled r) st = settle a (Rejected e) st"
  by (simp add: settle_def generateImage_resume_def)

lemma settle_no_image:
  "response_parts r = Inr ps \<Longrightarrow> firstInline ps = None \<Longrightarrow>
   settle a (Fulfilled r) st =
     (setControlsDisabled False (hide_loading
        (swap_placeholder (ErrorTile ''Generation failed.'') (placeholder a) st)), None)"
  by (simp add: settle_def generateImage_resume_def click_resume_def createErrorTile_def)

lemma settle_image:
  "response_parts r = Inr ps \<Longrightarrow> firstInline ps = Some src \<Longrightarrow>
   settle a (Fulfilled r) st =
     (setControlsDisabled False (hide_loading st),
      Some \<lparr>img_placeholder = placeholder a, container = build_container src (combined a)\<rparr>)"
  using firstInline_truthy [of ps src]
  by (simp add: settle_def generateImage_resume_def click_resume_def)

lemma settle_cases:
  obtains (thrown) e where "settle a oc st = settle a (Rejected e) st"
  | (no_image) "settle a oc st =
       (setControlsDisabled False (hide_loading
          (swap_placeholder (ErrorTile ''Generation failed.'') (placeholder a) st)), None)"
  | (image) src where "settle a oc st =
       (setControlsDisabled False (hide_loading st),
        Some \<lparr>img_placeholder = placeholder a, container = build_container src (combined a)\<rparr>)"
proof (cases oc)
  case (Rejected e)
  then show ?thesis using thrown by simp
next
  case (Fulfilled r)
  show ?thesis
  proof (cases "response_parts r")
    case (Inl e)
    then show ?thesis using thrown settle_malformed Fulfilled by simp
  next
    case (Inr ps)
    show ?thesis
    proof (cases "firstInline ps")
      case None
      then show ?thesis using no_image settle_no_image Inr Fulfilled by simp
    next
      case (Some src)
      then show ?thesis using image settle_image Inr Fulfilled by simp
    qed
  qed
qed

lemma cleanup_fields:
  "resultsGrid (setControlsDisabled False (hide_loading st)) = resultsGrid st"
  "effects (setControlsDisabled False (hide_loading st)) =
     effects st @ [LoadingHidden, SetControlsDisabled False]"
  "loadingIndicator_hidden (setControlsDisabled False (hide_loading st))"
  "\<not> generateBtn_disabled (setControlsDisabled False (hide_loading st))"
  "\<not> poseSelect_disabled (setControlsDisabled False (hide_loading st))"
  "\<not> expressionSelect_disabled (setControlsDisabled False (hide_loading st))"
  "\<not> styleSelect_disabled (setControlsDisabled False (hide_loading st))"
  "\<not> cameraAngleSelect_disabled (setControlsDisabled False (hide_loading st))"
  "uploadedFile (setControlsDisabled False (hide_loading st)) = uploadedFile st"
  "created (setControlsDisabled False (hide_loading st)) = created st"
  by (simp_all add: setControlsDisabled_def hide_loading_def)

lemma swap_fields:
  "resultsGrid (swap_placeholder t n st) =
     (if Placeholder n \<in> set (resultsGrid st)
      then replaceChild t (Placeholder n) (resultsGrid st) else resultsGrid st)"
  "effects (swap_placeholder t n st) = effects st"
  "uploadedFile (swap_placeholder t n st) = uploadedFile st"
  "created (swap_placeholder t n st) = created st"
  by (simp_all add: swap_placeholder_def)

lemma replaceChild_frame:
  "length (replaceChild new old g) = length g"
  "i < length g \<Longrightarrow> g ! i \<noteq> old \<Longrightarrow> replaceChild new old g ! i = g ! i"
  by (induction g arbitrary: i) (auto simp: nth_Cons split: nat.splits)


section \<open>The success tile\<close>

text \<open>
  Claim C2. With an image uploaded, a click and then a response whose first part with
  inline data is \<open>{data: "AAAA", mimeType: "image/png"}\<close> build an image tile whose source
  and download link are \<open>data:image/png;base64,AAAA\<close> and whose file name is
  \<open>generated_\<close>, then the composed prompt with every digit and small letter kept, every
  capital letter made small and every other character turned into an underscore, then
  \<open>.png\<close>. The tile is the same whatever the page looks like when the response arrives,
  and once the image has loaded it is the content of the results grid.
\<close>

theorem success_tile_source_and_filename:
  assumes "uploadedFile st = Some u"
    and "response_parts r = Inr (pre @ Part (Some (Blob ''AAAA'' ''image/png'')) t # post)"
    and "\<forall>p\<in>set pre. inlineData p = None"
  shows "\<exists>st1 a st2 im.
           generateBtn_click sel st = (st1, Some a, None)
         \<and> settle a (Fulfilled r) st1 = (st2, Some im)
         \<and> (\<forall>st'. snd (settle a (Fulfilled r) st') = Some im)
         \<and> img_src (container im) = ''data:image/png;base64,AAAA''
         \<and> href (container im) = ''data:image/png;base64,AAAA''
         \<and> download (container im) = ''generated_'' @ sanitized (combinedPrompt sel) @ ''.png''
         \<and> resultsGrid (img_onload im st2) = [ResultContainer (container im)]"
proof -
  let ?ps = "pre @ Part (Some (Blob ''AAAA'' ''image/png'')) t # post"
  let ?src = "''data:image/png;base64,AAAA''"
  have src: "firstInline ?ps = Some ?src"
    using assms(3) by (simp add: firstInline_skip)
  obtain st1 a where click: "generateBtn_click sel st = (st1, Some a, None)"
    and a: "placeholder a = created st" "combined a = combinedPrompt sel"
    and grid: "resultsGrid st1 = [Placeholder (created st)]"
    by (rule click_started [OF assms(1), of sel])
  let ?im = "\<lparr>img_placeholder = placeholder a, container = build_container ?src (combined a)\<rparr>"
  have settled: "settle a (Fulfilled r) st' = (setControlsDisabled False (hide_loading st'), Some ?im)"
    for st'
    by (rule settle_image [OF assms(2) src])
  let ?st2 = "setControlsDisabled False (hide_loading st1)"
  have 1: "settle a (Fulfilled r) st1 = (?st2, Some ?im)"
    by (rule settled)
  have 2: "\<forall>st'. snd (settle a (Fulfilled r) st') = Some ?im"
    by (simp add: settled)
  have 3: "img_src (container ?im) = ?src" and 4: "href (container ?im) = ?src"
    by (simp_all add: build_container_def)
  have 5: "download (container ?im) = ''generated_'' @ sanitized (combinedPrompt sel) @ ''.png''"
    by (simp add: build_container_def cleanPrompt_sanitized a)
  have 6: "resultsGrid (img_onload ?im ?st2) = [ResultContainer (container ?im)]"
    by (simp add: img_onload_def swap_fields cleanup_fields grid a)
  from click 1 2 3 4 5 6 show ?thesis by blast
qed

theorem success_tile_source_and_filename_witness:
  "uploadedFile ready_page = Some \<lparr>base64 = Some ''QUJD'', mimeType = ''image/png''\<rparr>
   \<and> response_parts with_image =
        Inr ([Part None (Some ''here it is'')] @ Part (Some (Blob ''AAAA'' ''image/png'')) None # [])
   \<and> inlineData (Part None (Some ''here it is'')) = None
   \<and> combinedPrompt \<lparr>pose = ''Standing tall'', expression = ''a Smile'',
                       style = ''B&W 35mm'', cameraAngle = ''from above''\<rparr>
       = ''Standing tall, with a Smile, B&W 35mm, captured from above''
   \<and> (\<exists>st1 a st2 im.
           generateBtn_click \<lparr>pose = ''Standing tall'', expression = ''a Smile'',
                               style = ''B&W 35mm'', cameraAngle = ''from above''\<rparr> ready_page
             = (st1, Some a, None)
         \<and> settle a (Fulfilled with_image) st1 = (st2, Some im)
         \<and> (\<forall>st'. snd (settle a (Fulfilled with_image) st') = Some im)
         \<and> img_src (container im) = ''data:image/png;base64,AAAA''
         \<and> href (container im) = ''data:image/png;base64,AAAA''
         \<and> download (container im) =
             ''generated_standing_tall__with_a_smile__b_w_35mm__captured_from_above.png''
         \<and> resultsGrid (img_onload im st2) = [ResultContainer (container im)])"
proof -
  let ?sel = "\<lparr>pose = ''Standing tall'', expression = ''a Smile'',
               style = ''B&W 35mm'', cameraAngle = ''from above''\<rparr>"
  have h1: "uploadedFile ready_page = Some \<lparr>base64 = Some ''QUJD'', mimeType = ''image/png''\<rparr>"
    by (simp add: ready_page_def reader_onload_def png_def Let_def)
  have h2: "response_parts with_image =
        Inr ([Part None (Some ''here it is'')] @ Part (Some (Blob ''AAAA'' ''image/png'')) None # [])"
    by (simp add: with_image_def response_parts_def)
  have h3: "\<forall>p\<in>set [Part None (Some ''here it is'')]. inlineData p = None"
    by simp
  have h4: "inlineData (Part None (Some ''here it is'')) = None"
    by simp
  have prompt: "combinedPrompt ?sel = ''Standing tall, with a Smile, B&W 35mm, captured from above''"
    by (simp add: combinedPrompt_def)
  have name: "''generated_'' @ sanitized (combinedPrompt ?sel) @ ''.png'' =
      ''generated_standing_tall__with_a_smile__b_w_35mm__captured_from_above.png''"
    by code_simp
  from success_tile_source_and_filename [OF h1 h2 h3, of ?sel]
  obtain st1 a st2 im where
    "generateBtn_click ?sel ready_page = (st1, Some a, None)"
    "settle a (Fulfilled with_image) st1 = (st2, Some im)"
    "\<forall>st'. snd (settle a (Fulfilled with_image) st') = Some im"
    "img_src (container im) = ''data:image/png;base64,AAAA''"
    "href (container im) = ''data:image/png;base64,AAAA''"
    "download (container im) = ''generated_'' @ sanitized (combinedPrompt ?sel) @ ''.png''"
    "resultsGrid (img_onload im st2) = [ResultContainer (container im)]"
    by blast
  with name have "\<exists>st1 a st2 im.
           generateBtn_click ?sel ready_page = (st1, Some a, None)
         \<and> settle a (Fulfilled with_image) st1 = (st2, Some im)
         \<and> (\<forall>st'. snd (settle a (Fulfilled with_image) st') = Some im)
         \<and> img_src (container im) = ''data:image/png;base64,AAAA''
         \<and> href (container im) = ''data:image/png;base64,AAAA''
         \<and> download (container im) =
             ''generated_standing_tall__with_a_smile__b_w_35mm__captured_from_above.png''
         \<and> resultsGrid (img_onload im st2) = [ResultContainer (container im)]"
    by (simp only:) blast
  with h1 h2 h4 prompt show ?thesis by blast
qed


section \<open>The stored upload\<close>

lemma uploadedFile_handleFile: "uploadedFile (fst (handleFile f st)) = uploadedFile st"
  by (simp add: handleFile_def alert_def)

lemma handleFile_reader:
  "snd (handleFile f st) = Some g \<Longrightarrow> g = f \<and> startsWith (ftype f) ''image/''"
  by (simp add: handleFile_def split: if_splits)

lemma uploadedFile_click: "uploadedFile (fst (generateBtn_click sel st)) = uploadedFile st"
proof (cases "uploadedFile st")
  case None
  then show ?thesis by (simp add: generateBtn_click_def alert_def)
next
  case (Some u)
  then show ?thesis by (simp add: click_with_upload)
qed

lemma uploadedFile_settle: "uploadedFile (fst (settle a oc st)) = uploadedFile st"
  by (cases rule: settle_cases [of a oc st])
     (simp_all add: settle_thrown cleanup_fields swap_fields)

lemma uploadedFile_img:
  "uploadedFile (img_onload im st) = uploadedFile st"
  "uploadedFile (img_onerror im st) = uploadedFile st"
  by (simp_all add: img_onload_def img_onerror_def swap_fields)

lemma uploadedFile_reader_onload:
  "uploadedFile (reader_onload f res st) =
     Some \<lparr>base64 = at (split CHR '','' res) 1, mimeType = ftype f\<rparr>"
  by (simp add: reader_onload_def Let_def)

lemma fire_typed_readers:
  assumes "typed_readers s" and "fire e s = Some s'"
  shows "typed_readers s'"
proof (cases e)
  case (FileChosen fs)
  show ?thesis
  proof (cases fs)
    case Nil
    with FileChosen assms show ?thesis
      by (auto simp: typed_readers_def handleFileSelect_def registered_def)
  next
    case (Cons f rest)
    obtain st r where h: "handleFile f (dom s) = (st, r)" by (cases "handleFile f (dom s)")
    have up: "uploadedFile st = uploadedFile (dom s)"
      using uploadedFile_handleFile [of f "dom s"] h by simp
    have r: "\<forall>g\<in>set (registered r). startsWith (ftype g) ''image/''"
      using handleFile_reader [of f "dom s"] h
      by (cases r) (auto simp: registered_def)
    from FileChosen Cons assms h have "s' = s\<lparr>dom := st, readers := readers s @ registered r\<rparr>"
      by (simp add: handleFileSelect_def)
    with assms(1) up r show ?thesis
      by (auto simp: typed_readers_def image_typed_def)
  qed
next
  case (ReaderLoaded f res)
  with assms have f: "f \<in> set (readers s)"
    and s': "s' = s\<lparr>dom := reader_onload f res (dom s), readers := remove1 f (readers s)\<rparr>"
    by (simp_all split: if_splits)
  from assms(1) f have "startsWith (ftype f) ''image/''"
    by (simp add: typed_readers_def)
  moreover have "\<forall>g\<in>set (remove1 f (readers s)). startsWith (ftype g) ''image/''"
    using assms(1) by (auto simp: typed_readers_def dest: notin_set_remove1)
  ultimately show ?thesis
    by (simp add: s' typed_readers_def image_typed_def uploadedFile_reader_onload)
next
  case (GenerateClicked sel)
  obtain st a im where h: "generateBtn_click sel (dom s) = (st, a, im)"
    by (cases "generateBtn_click sel (dom s)")
  have up: "uploadedFile st = uploadedFile (dom s)"
    using uploadedFile_click [of sel "dom s"] h by simp
  from GenerateClicked assms h have "dom s' = st" "readers s' = readers s"
    by (auto split: if_splits)
  with assms(1) up show ?thesis by (simp add: typed_readers_def image_typed_def)
next
  case (ServiceSettled a oc)
  obtain st im where h: "settle a oc (dom s) = (st, im)" by (cases "settle a oc (dom s)")
  have up: "uploadedFile st = uploadedFile (dom s)"
    using uploadedFile_settle [of a oc "dom s"] h by simp
  from ServiceSettled assms h have "dom s' = st" "readers s' = readers s"
    by (auto split: if_splits)
  with assms(1) up show ?thesis by (simp add: typed_readers_def image_typed_def)
next
  case (ImageLoaded im)
  with assms have "dom s' = img_onload im (dom s)" "readers s' = readers s"
    by (auto split: if_splits)
  with assms(1) show ?thesis by (simp add: typed_readers_def image_typed_def uploadedFile_img)
next
  case (ImageFailed im)
  with assms have "dom s' = img_onerror im (dom s)" "readers s' = readers s"
    by (auto split: if_splits)
  with assms(1) show ?thesis by (simp add: typed_readers_def image_typed_def uploadedFile_img)
qed

lemma run_typed_readers: "typed_readers s \<Longrightarrow> run es s = Some s' \<Longrightarrow> typed_readers s'"
proof (induction es arbitrary: s)
  case Nil
  then show ?case by simp
next
  case (Cons e es)
  then obtain s1 where "fire e s = Some s1" and "run es s1 = Some s'"
    by (auto split: option.splits)
  with Cons show ?case using fire_typed_readers by blast
qed

lemma start_typed_readers: "typed_readers (start st)"
  by (simp add: typed_readers_def start_def image_typed_def)

text \<open>
  Claim C9, as amended. After every event of a session the stored upload is either
  absent, as it is at the start, or has a type that begins with \<open>image/\<close>. A finished
  read replaces it as a whole by the pair of the text between the first and the second
  comma of the reader's data URL and the type of the file, whatever was stored before;
  the payload is empty or \<open>undefined\<close> when the data URL has nothing there. No other
  operation changes it.
\<close>

theorem uploaded_image_typed_and_replaced_whole:
  assumes "run es (start st0) = Some s"
  shows "image_typed (dom s)
       \<and> uploadedFile (reader_onload f res st) =
           Some \<lparr>base64 = at (split CHR '','' res) 1, mimeType = ftype f\<rparr>
       \<and> uploadedFile (fst (handleFile f st)) = uploadedFile st
       \<and> uploadedFile (fst (generateBtn_click sel st)) = uploadedFile st
       \<and> uploadedFile (fst (settle a oc st)) = uploadedFile st
       \<and> uploadedFile (img_onload im st) = uploadedFile st
       \<and> uploadedFile (img_onerror im st) = uploadedFile st"
proof -
  have "typed_readers s"
    using start_typed_readers assms by (rule run_typed_readers)
  then have "image_typed (dom s)" by (simp add: typed_readers_def)
  then show ?thesis
    by (simp add: uploadedFile_reader_onload uploadedFile_handleFile uploadedFile_click
          uploadedFile_settle uploadedFile_img)
qed

theorem uploaded_image_typed_and_replaced_whole_witness:
  "run [FileChosen [png], ReaderLoaded png ''data:image/png;base64,QUJD''] (start blank_page) =
     Some \<lparr>dom = ready_page, readers = [], requests = [], images = []\<rparr>
   \<and> image_typed ready_page
   \<and> uploadedFile ready_page = Some \<lparr>base64 = Some ''QUJD'', mimeType = ''image/png''\<rparr>"
proof -
  have h: "run [FileChosen [png], ReaderLoaded png ''data:image/png;base64,QUJD'']
             (start blank_page) =
           Some \<lparr>dom = ready_page, readers = [], requests = [], images = []\<rparr>"
    by (simp add: start_def blank_page_def ready_page_def png_def handleFileSelect_def
          handleFile_def startsWith_def registered_def)
  have u: "uploadedFile ready_page = Some \<lparr>base64 = Some ''QUJD'', mimeType = ''image/png''\<rparr>"
    by (simp add: ready_page_def reader_onload_def png_def Let_def)
  from uploaded_image_typed_and_replaced_whole [OF h] have "image_typed ready_page"
    by simp
  with h u show ?thesis by blast
qed

text \<open>
  The claim as first written asks for a non-empty payload as well. A file of no bytes
  with the type \<open>image/png\<close> passes the type check, its data URL ends at the comma, and
  the payload stored is the empty string.
\<close>

theorem empty_payload_counterexample:
  "map_option (UploadedImage_invariant \<circ> dom)
     (run [FileChosen [png], ReaderLoaded png ''data:image/png;base64,''] (start blank_page))
   = Some False"
  by code_simp


section \<open>Outcomes of an attempt\<close>

lemma ready_page_fields:
  "uploadedFile ready_page = Some \<lparr>base64 = Some ''QUJD'', mimeType = ''image/png''\<rparr>"
  "created ready_page = 0"
  "resultsGrid ready_page = []"
  "effects ready_page = []"
  by (simp_all add: ready_page_def reader_onload_def png_def Let_def blank_page_def)

lemma first_click:
  "snd (generateBtn_click choice ready_page) = (Some first_attempt, None)"
  "resultsGrid (fst (generateBtn_click choice ready_page)) = [Placeholder 0]"
  by (simp_all add: click_with_upload [OF ready_page_fields(1)] ready_page_fields(2)
        first_attempt_def)

lemma response_parts_examples:
  "response_parts text_only = Inr [Part None (Some ''no image'')]"
  "response_parts with_image =
     Inr [Part None (Some ''here it is''), Part (Some (Blob ''AAAA'' ''image/png'')) None]"
  by (simp_all add: text_only_def with_image_def response_parts_def)

text \<open>
  Claim C5, as amended. When the response exposes a list of parts and none of them
  carries inline data, the attempt builds no image, and the tile \<open>Generation failed.\<close>
  takes the place of the attempt's placeholder if that placeholder is still a child of
  the results grid; if it is not, the grid stays as it is. Right after the click the
  placeholder is the only child, so there the grid becomes the one error tile.
\<close>

theorem no_inline_part_generation_failed:
  assumes "response_parts r = Inr ps"
    and "\<forall>p\<in>set ps. inlineData p = None"
  shows "snd (settle a (Fulfilled r) st) = None
       \<and> resultsGrid (fst (settle a (Fulfilled r) st)) =
           (if Placeholder (placeholder a) \<in> set (resultsGrid st)
            then replaceChild (ErrorTile ''Generation failed.'') (Placeholder (placeholder a))
                   (resultsGrid st)
            else resultsGrid st)
       \<and> (uploadedFile st0 = Some u \<longrightarrow>
            (\<exists>st1 a1 st2.
                generateBtn_click sel st0 = (st1, Some a1, None)
              \<and> settle a1 (Fulfilled r) st1 = (st2, None)
              \<and> resultsGrid st2 = [ErrorTile ''Generation failed.'']))"
proof -
  have none: "firstInline ps = None"
    using assms(2) by (rule firstInline_none)
  have settled: "settle b (Fulfilled r) st' = (setControlsDisabled False (hide_loading
        (swap_placeholder (ErrorTile ''Generation failed.'') (placeholder b) st')), None)"
    for b st'
    by (rule settle_no_image [OF assms(1) none])
  have 1: "snd (settle a (Fulfilled r) st) = None"
    by (simp add: settled)
  have 2: "resultsGrid (fst (settle a (Fulfilled r) st)) =
           (if Placeholder (placeholder a) \<in> set (resultsGrid st)
            then replaceChild (ErrorTile ''Generation failed.'') (Placeholder (placeholder a))
                   (resultsGrid st)
            else resultsGrid st)"
    by (simp add: settled cleanup_fields swap_fields)
  have 3: "\<exists>st1 a1 st2.
                generateBtn_click sel st0 = (st1, Some a1, None)
              \<and> settle a1 (Fulfilled r) st1 = (st2, None)
              \<and> resultsGrid st2 = [ErrorTile ''Generation failed.'']"
    if up: "uploadedFile st0 = Some u"
  proof -
    obtain st1 a1 where click: "generateBtn_click sel st0 = (st1, Some a1, None)"
      and a1: "placeholder a1 = created st0"
      and grid: "resultsGrid st1 = [Placeholder (created st0)]"
      by (rule click_started [OF up, of sel])
    let ?st2 = "setControlsDisabled False (hide_loading
        (swap_placeholder (ErrorTile ''Generation failed.'') (placeholder a1) st1))"
    have "settle a1 (Fulfilled r) st1 = (?st2, None)"
      by (rule settled)
    moreover have "resultsGrid ?st2 = [ErrorTile ''Generation failed.'']"
      by (simp add: cleanup_fields swap_fields grid a1)
    ultimately show ?thesis using click by blast
  qed
  from 1 2 3 show ?thesis by blast
qed

theorem no_inline_part_generation_failed_witness:
  "response_parts text_only = Inr [Part None (Some ''no image'')]
   \<and> inlineData (Part None (Some ''no image'')) = None
   \<and> snd (settle first_attempt (Fulfilled text_only) (fst (generateBtn_click choice ready_page)))
       = None
   \<and> resultsGrid
       (fst (settle first_attempt (Fulfilled text_only) (fst (generateBtn_click choice ready_page))))
       = [ErrorTile ''Generation failed.'']"
proof -
  have h1: "response_parts text_only = Inr [Part None (Some ''no image'')]"
    by (rule response_parts_examples)
  have h2: "\<forall>p\<in>set [Part None (Some ''no image'')]. inlineData p = None"
    by simp
  have h3: "inlineData (Part None (Some ''no image'')) = None"
    by simp
  note t = no_inline_part_generation_failed
    [OF h1 h2, of first_attempt "fst (generateBtn_click choice ready_page)"]
  from t have "snd (settle first_attempt (Fulfilled text_only)
                 (fst (generateBtn_click choice ready_page))) = None"
    by blast
  moreover from t have "resultsGrid (fst (settle first_attempt (Fulfilled text_only)
                 (fst (generateBtn_click choice ready_page)))) = [ErrorTile ''Generation failed.'']"
    by (simp add: first_click first_attempt_def)
  ultimately show ?thesis using h1 h3 by blast
qed

text \<open>
  The claim as first written promises the tile for every such response. While the first
  request is pending the uploader still works, a finished read enables the button again,
  and a second click empties the grid; the first response then finds its placeholder
  gone and shows nothing.
\<close>

theorem stale_no_image_counterexample:
  "map_option (resultsGrid \<circ> dom)
     (run [FileChosen [png], ReaderLoaded png ''data:image/png;base64,QUJD'',
           GenerateClicked choice,
           FileChosen [png], ReaderLoaded png ''data:image/png;base64,QUJD'',
           GenerateClicked choice,
           ServiceSettled first_attempt (Fulfilled text_only)]
        (start blank_page))
   = Some [Placeholder 1]"
  by code_simp

text \<open>
  Claim C6, as amended. When the service call throws or rejects, the attempt builds no
  image; the error goes to the console with the prompt and to nowhere else, the page
  after it is the same for every error, and the tile \<open>API error.\<close> takes the place of the
  attempt's placeholder if that placeholder is still a child of the results grid (right
  after the click it is the only child); if it is not, the grid stays as it is. A
  response that cannot be read down to its parts throws inside the same \<^verbatim>\<open>try\<close> and
  ends the same way.
\<close>

theorem service_failure_api_error:
  "snd (settle a (Rejected e) st) = None
   \<and> resultsGrid (fst (settle a (Rejected e) st)) =
       (if Placeholder (placeholder a) \<in> set (resultsGrid st)
        then replaceChild (ErrorTile ''API error.'') (Placeholder (placeholder a)) (resultsGrid st)
        else resultsGrid st)
   \<and> effects (fst (settle a (Rejected e) st)) =
       effects st @ [ConsoleError (console_message (combined a)) e,
                     LoadingHidden, SetControlsDisabled False]
   \<and> (fst (settle a (Rejected e') st))\<lparr>effects := []\<rparr> =
       (fst (settle a (Rejected e) st))\<lparr>effects := []\<rparr>
   \<and> (response_parts r = Inl e \<longrightarrow> settle a (Fulfilled r) st = settle a (Rejected e) st)
   \<and> (uploadedFile st0 = Some u \<longrightarrow>
        (\<exists>st1 a1 st2.
            generateBtn_click sel st0 = (st1, Some a1, None)
          \<and> settle a1 (Rejected e) st1 = (st2, None)
          \<and> resultsGrid st2 = [ErrorTile ''API error.'']))"
proof -
  have 1: "snd (settle a (Rejected e) st) = None"
    by (simp add: settle_thrown)
  have 2: "resultsGrid (fst (settle a (Rejected e) st)) =
       (if Placeholder (placeholder a) \<in> set (resultsGrid st)
        then replaceChild (ErrorTile ''API error.'') (Placeholder (placeholder a)) (resultsGrid st)
        else resultsGrid st)"
    by (simp add: settle_thrown cleanup_fields swap_fields)
  have 3: "effects (fst (settle a (Rejected e) st)) =
       effects st @ [ConsoleError (console_message (combined a)) e,
                     LoadingHidden, SetControlsDisabled False]"
    by (simp add: settle_thrown cleanup_fields swap_fields)
  have 4: "(fst (settle a (Rejected e') st))\<lparr>effects := []\<rparr> =
       (fst (settle a (Rejected e) st))\<lparr>effects := []\<rparr>"
    by (simp add: settle_thrown setControlsDisabled_def hide_loading_def swap_placeholder_def)
  have 5: "response_parts r = Inl e \<longrightarrow> settle a (Fulfilled r) st = settle a (Rejected e) st"
    by (simp add: settle_malformed)
  have 6: "\<exists>st1 a1 st2.
            generateBtn_click sel st0 = (st1, Some a1, None)
          \<and> settle a1 (Rejected e) st1 = (st2, None)
          \<and> resultsGrid st2 = [ErrorTile ''API error.'']"
    if up: "uploadedFile st0 = Some u"
  proof -
    obtain st1 a1 where click: "generateBtn_click sel st0 = (st1, Some a1, None)"
      and a1: "placeholder a1 = created st0"
      and grid: "resultsGrid st1 = [Placeholder (created st0)]"
      by (rule click_started [OF up, of sel])
    let ?st2 = "setControlsDisabled False (hide_loading
        (swap_placeholder (ErrorTile ''API error.'') (placeholder a1)
          (st1\<lparr>effects := effects st1 @ [ConsoleError (console_message (combined a1)) e]\<rparr>)))"
    have "settle a1 (Rejected e) st1 = (?st2, None)"
      by (rule settle_thrown)
    moreover have "resultsGrid ?st2 = [ErrorTile ''API error.'']"
      by (simp add: cleanup_fields swap_fields grid a1)
    ultimately show ?thesis using click by blast
  qed
  from 1 2 3 4 5 6 show ?thesis by blast
qed

theorem service_failure_api_error_witness:
  "uploadedFile ready_page = Some \<lparr>base64 = Some ''QUJD'', mimeType = ''image/png''\<rparr>
   \<and> response_parts (Response None) = Inl TypeError
   \<and> settle first_attempt (Fulfilled (Response None)) (fst (generateBtn_click choice ready_page))
       = settle first_attempt (Rejected TypeError) (fst (generateBtn_click choice ready_page))
   \<and> resultsGrid
       (fst (settle first_attempt (Rejected TypeError) (fst (generateBtn_click choice ready_page))))
       = [ErrorTile ''API error.'']
   \<and> (\<exists>st1 a1 st2.
            generateBtn_click choice ready_page = (st1, Some a1, None)
          \<and> settle a1 (Rejected (ServiceError ''quota'')) st1 = (st2, None)
          \<and> resultsGrid st2 = [ErrorTile ''API error.''])"
proof -
  have h1: "uploadedFile ready_page = Some \<lparr>base64 = Some ''QUJD'', mimeType = ''image/png''\<rparr>"
    by (rule ready_page_fields)
  have h2: "response_parts (Response None) = Inl TypeError"
    by (simp add: response_parts_def)
  note t = service_failure_api_error
    [of first_attempt TypeError "fst (generateBtn_click choice ready_page)" _ "Response None"]
  from t h2 have a: "settle first_attempt (Fulfilled (Response None))
        (fst (generateBtn_click choice ready_page))
       = settle first_attempt (Rejected TypeError) (fst (generateBtn_click choice ready_page))"
    by blast
  from t have b: "resultsGrid (fst (settle first_attempt (Rejected TypeError)
        (fst (generateBtn_click choice ready_page)))) = [ErrorTile ''API error.'']"
    by (simp add: first_click first_attempt_def)
  from service_failure_api_error [of _ "ServiceError ''quota''" _ _ _ ready_page _ choice] h1
  have c: "\<exists>st1 a1 st2.
            generateBtn_click choice ready_page = (st1, Some a1, None)
          \<and> settle a1 (Rejected (ServiceError ''quota'')) st1 = (st2, None)
          \<and> resultsGrid st2 = [ErrorTile ''API error.'']"
    by blast
  from h1 h2 a b c show ?thesis by blast
qed

text \<open>
  The claim as first written promises the tile for every failed attempt; the attempt
  overtaken by a second click shows none.
\<close>

theorem stale_rejection_counterexample:
  "map_option (resultsGrid \<circ> dom)
     (run [FileChosen [png], ReaderLoaded png ''data:image/png;base64,QUJD'',
           GenerateClicked choice,
           FileChosen [png], ReaderLoaded png ''data:image/png;base64,QUJD'',
           GenerateClicked choice,
           ServiceSettled first_attempt (Rejected (ServiceError ''quota''))]
        (start blank_page))
   = Some [Placeholder 1]"
  by code_simp



section \<open>Cleanup\<close>

subsection \<open>One settled call\<close>

lemma img_only_grid:
  "img_onload im st = st\<lparr>resultsGrid := resultsGrid (img_onload im st)\<rparr>"
  "img_onerror im st = st\<lparr>resultsGrid := resultsGrid (img_onerror im st)\<rparr>"
  by (simp_all add: img_onload_def img_onerror_def swap_placeholder_def)

lemma settle_effects:
  "\<exists>log. effects (fst (settle a oc st)) = effects st @ log @ [LoadingHidden, SetControlsDisabled False]
         \<and> LoadingHidden \<notin> set log \<and> SetControlsDisabled True \<notin> set log
         \<and> SetControlsDisabled False \<notin> set log"
proof (cases rule: settle_cases [of a oc st])
  case (thrown e)
  have "effects (fst (settle a oc st)) =
          effects st @ [ConsoleError (console_message (combined a)) e]
            @ [LoadingHidden, SetControlsDisabled False]"
    by (simp add: thrown settle_thrown cleanup_fields swap_fields)
  moreover have "LoadingHidden \<notin> set [ConsoleError (console_message (combined a)) e]"
    "SetControlsDisabled True \<notin> set [ConsoleError (console_message (combined a)) e]"
    "SetControlsDisabled False \<notin> set [ConsoleError (console_message (combined a)) e]"
    by simp_all
  ultimately show ?thesis by blast
next
  case no_image
  have "effects (fst (settle a oc st)) = effects st @ [] @ [LoadingHidden, SetControlsDisabled False]"
    by (simp add: no_image cleanup_fields swap_fields)
  then show ?thesis by force
next
  case (image src)
  have "effects (fst (settle a oc st)) = effects st @ [] @ [LoadingHidden, SetControlsDisabled False]"
    by (simp add: image cleanup_fields)
  then show ?thesis by force
qed

lemma settle_controls:
  "loadingIndicator_hidden (fst (settle a oc st))"
  "\<not> generateBtn_disabled (fst (settle a oc st))"
  "\<not> poseSelect_disabled (fst (settle a oc st))"
  "\<not> expressionSelect_disabled (fst (settle a oc st))"
  "\<not> styleSelect_disabled (fst (settle a oc st))"
  "\<not> cameraAngleSelect_disabled (fst (settle a oc st))"
  by (cases rule: settle_cases [of a oc st]; simp add: settle_thrown cleanup_fields)+

subsection \<open>Whole sessions: attempts are told apart and settle once\<close>

lemma handleFileSelect_frame:
  assumes "handleFileSelect fs st = (st', r)"
  shows "created st' = created st"
    and "count_list (effects st') LoadingHidden = count_list (effects st) LoadingHidden"
    and "count_list (effects st') (SetControlsDisabled False)
           = count_list (effects st) (SetControlsDisabled False)"
  using assms
  by (cases fs; auto simp: handleFileSelect_def handleFile_def alert_def split: if_splits)+

lemma in_remove1D: "y \<in> set (remove1 x xs) \<Longrightarrow> y \<in> set xs"
  using set_remove1_subset [of x xs] by blast

lemma created_settle: "created (fst (settle a oc st)) = created st"
  by (cases rule: settle_cases [of a oc st])
     (simp_all add: settle_thrown cleanup_fields swap_fields)

lemma settle_image_placeholder:
  "snd (settle a oc st) = Some im \<Longrightarrow> img_placeholder im = placeholder a"
  by (cases rule: settle_cases [of a oc st]) (auto simp: settle_thrown)

lemma created_img:
  "created (img_onload im st) = created st"
  "created (img_onerror im st) = created st"
  by (simp_all add: img_onload_def img_onerror_def swap_fields)

lemma distinct_map_remove1: "distinct (map f xs) \<Longrightarrow> distinct (map f (remove1 x xs))"
  by (induction xs) (auto dest: in_remove1D)

lemma click_no_upload:
  "uploadedFile st = None \<Longrightarrow>
   generateBtn_click sel st = (alert ''Please upload an image first.'' st, None, None)"
  by (simp add: generateBtn_click_def)

lemma fire_fresh:
  assumes "fresh s" and "fire e s = Some s'"
  shows "fresh s'"
proof (cases e)
  case (FileChosen fs)
  obtain st r where h: "handleFileSelect fs (dom s) = (st, r)"
    by (cases "handleFileSelect fs (dom s)")
  have "created st = created (dom s)"
    using h by (rule handleFileSelect_frame)
  moreover from FileChosen assms h have "dom s' = st" "requests s' = requests s"
    "images s' = images s" by auto
  ultimately show ?thesis using assms(1) by (simp add: fresh_def)
next
  case (ReaderLoaded f res)
  with assms have "created (dom s') = created (dom s)" "requests s' = requests s"
    "images s' = images s"
    by (auto simp: reader_onload_def Let_def split: if_splits)
  then show ?thesis using assms(1) by (simp add: fresh_def)
next
  case (GenerateClicked sel)
  show ?thesis
  proof (cases "uploadedFile (dom s)")
    case None
    with GenerateClicked assms have "created (dom s') = created (dom s)"
      "requests s' = requests s" "images s' = images s"
      by (auto simp: click_no_upload alert_def registered_def split: if_splits)
    then show ?thesis using assms(1) by (simp add: fresh_def)
  next
    case (Some u)
    obtain st1 a where click: "generateBtn_click sel (dom s) = (st1, Some a, None)"
      and a: "placeholder a = created (dom s)"
      and c: "created st1 = Suc (created (dom s))"
      by (rule click_started [OF Some, of sel])
    from GenerateClicked assms click have "dom s' = st1" "requests s' = requests s @ [a]"
      "images s' = images s"
      by (auto simp: registered_def split: if_splits)
    then show ?thesis using assms(1) a c by (fastforce simp: fresh_def)
  qed
next
  case (ServiceSettled a oc)
  obtain st im where h: "settle a oc (dom s) = (st, im)" by (cases "settle a oc (dom s)")
  have c: "created st = created (dom s)"
    using created_settle [of a oc "dom s"] h by simp
  from ServiceSettled assms h have a: "a \<in> set (requests s)"
    and s': "dom s' = st" "requests s' = remove1 a (requests s)"
      "images s' = images s @ registered im"
    by (auto split: if_splits)
  have "\<forall>i\<in>set (registered im). img_placeholder i < created (dom s)"
    using settle_image_placeholder [of a oc "dom s"] h a assms(1)
    by (cases im) (auto simp: registered_def fresh_def)
  then show ?thesis using assms(1) s' c
    by (auto simp: fresh_def distinct_map_remove1 dest: in_remove1D)
next
  case (ImageLoaded im)
  with assms have "created (dom s') = created (dom s)" "requests s' = requests s"
    "images s' = remove1 im (images s)"
    by (auto simp: created_img split: if_splits)
  then show ?thesis using assms(1) by (auto simp: fresh_def dest: in_remove1D)
next
  case (ImageFailed im)
  with assms have "created (dom s') = created (dom s)" "requests s' = requests s"
    "images s' = remove1 im (images s)"
    by (auto simp: created_img split: if_splits)
  then show ?thesis using assms(1) by (auto simp: fresh_def dest: in_remove1D)
qed

lemma run_fresh: "fresh s \<Longrightarrow> run es s = Some s' \<Longrightarrow> fresh s'"
proof (induction es arbitrary: s)
  case Nil
  then show ?case by simp
next
  case (Cons e es)
  then obtain s1 where "fire e s = Some s1" and "run es s1 = Some s'"
    by (auto split: option.splits)
  with Cons show ?case using fire_fresh by blast
qed

lemma start_fresh: "fresh (start st)"
  by (simp add: fresh_def start_def)

lemma fire_created: "fire e s = Some s' \<Longrightarrow> created (dom s) \<le> created (dom s')"
proof (cases e)
  case (FileChosen fs)
  assume "fire e s = Some s'"
  with FileChosen show ?thesis
    by (auto split: prod.splits dest: handleFileSelect_frame(1))
next
  case (ReaderLoaded f res)
  assume "fire e s = Some s'"
  with ReaderLoaded show ?thesis
    by (auto simp: reader_onload_def Let_def split: if_splits)
next
  case (GenerateClicked sel)
  assume f: "fire e s = Some s'"
  show ?thesis
  proof (cases "uploadedFile (dom s)")
    case None
    with GenerateClicked f show ?thesis
      by (auto simp: click_no_upload alert_def split: if_splits)
  next
    case (Some u)
    obtain st1 a where "generateBtn_click sel (dom s) = (st1, Some a, None)"
      and "created st1 = Suc (created (dom s))"
      by (rule click_started [OF Some, of sel])
    with GenerateClicked f show ?thesis by (auto split: if_splits)
  qed
next
  case (ServiceSettled a oc)
  assume "fire e s = Some s'"
  with ServiceSettled show ?thesis
    using created_settle [of a oc "dom s"]
    by (auto split: if_splits prod.splits)
next
  case (ImageLoaded im)
  assume "fire e s = Some s'"
  with ImageLoaded show ?thesis by (auto simp: created_img split: if_splits)
next
  case (ImageFailed im)
  assume "fire e s = Some s'"
  with ImageFailed show ?thesis by (auto simp: created_img split: if_splits)
qed

lemma fire_requests:
  assumes "fire e s = Some s'" and "b \<in> set (requests s')"
  shows "b \<in> set (requests s) \<or> created (dom s) \<le> placeholder b"
proof (cases e)
  case (GenerateClicked sel)
  show ?thesis
  proof (cases "uploadedFile (dom s)")
    case None
    with GenerateClicked assms show ?thesis
      by (auto simp: click_no_upload registered_def split: if_splits)
  next
    case (Some u)
    obtain st1 a where "generateBtn_click sel (dom s) = (st1, Some a, None)"
      and "placeholder a = created (dom s)"
      by (rule click_started [OF Some, of sel])
    with GenerateClicked assms show ?thesis
      by (auto simp: registered_def split: if_splits)
  qed
next
  case (ServiceSettled a oc)
  with assms show ?thesis
    by (auto split: if_splits prod.splits dest: in_remove1D)
qed (use assms in \<open>auto split: if_splits prod.splits\<close>)

lemma settled_once:
  assumes "fresh s" and "run es s = Some s'"
  shows "distinct (map placeholder (settled es))
       \<and> (\<forall>a\<in>set (settled es). a \<in> set (requests s) \<or> created (dom s) \<le> placeholder a)"
  using assms
proof (induction es arbitrary: s)
  case Nil
  then show ?case by simp
next
  case (Cons e es)
  then obtain s1 where f: "fire e s = Some s1" and r: "run es s1 = Some s'"
    by (auto split: option.splits)
  have fr: "fresh s1" using Cons.prems(1) f by (rule fire_fresh)
  note ih = Cons.IH [OF fr r]
  have later: "b \<in> set (requests s) \<or> created (dom s) \<le> placeholder b"
    if "b \<in> set (settled es)" for b
  proof -
    from ih that have "b \<in> set (requests s1) \<or> created (dom s1) \<le> placeholder b" by blast
    then show ?thesis
      using fire_requests [OF f, of b] fire_created [OF f] by auto
  qed
  show ?case
  proof (cases e)
    case (ServiceSettled a oc)
    with f have a: "a \<in> set (requests s)"
      and rq: "requests s1 = remove1 a (requests s)"
      and c: "created (dom s1) = created (dom s)"
      using created_settle [of a oc "dom s"]
      by (auto split: if_splits prod.splits)
    have lt: "placeholder a < created (dom s)"
      using Cons.prems(1) a by (simp add: fresh_def)
    have "placeholder a \<notin> placeholder ` set (settled es)"
    proof
      assume "placeholder a \<in> placeholder ` set (settled es)"
      then obtain b where b: "b \<in> set (settled es)" and eq: "placeholder b = placeholder a"
        by auto
      from ih b have "b \<in> set (requests s1) \<or> created (dom s1) \<le> placeholder b" by blast
      then show False
      proof
        assume "b \<in> set (requests s1)"
        then have b1: "b \<in> set (remove1 a (requests s))" by (simp add: rq)
        have d: "distinct (map placeholder (requests s))"
          using Cons.prems(1) by (simp add: fresh_def)
        then have "distinct (requests s)" by (simp add: distinct_map)
        with b1 have "b \<noteq> a" "b \<in> set (requests s)" by (auto dest: in_remove1D)
        with d a eq show False by (auto simp: distinct_map inj_on_def)
      next
        assume "created (dom s1) \<le> placeholder b"
        with lt c eq show False by simp
      qed
    qed
    with ih later a ServiceSettled show ?thesis by auto
  qed (use ih later in auto)
qed

lemma fire_cleanup_count:
  assumes "fire e s = Some s'"
  shows "count_list (effects (dom s')) LoadingHidden =
           count_list (effects (dom s)) LoadingHidden + length (settled [e])
       \<and> count_list (effects (dom s')) (SetControlsDisabled False) =
           count_list (effects (dom s)) (SetControlsDisabled False) + length (settled [e])"
proof (cases e)
  case (FileChosen fs)
  with assms show ?thesis
    by (auto split: prod.splits dest: handleFileSelect_frame)
next
  case (ReaderLoaded f res)
  with assms show ?thesis
    by (auto simp: reader_onload_def Let_def split: if_splits)
next
  case (GenerateClicked sel)
  show ?thesis
  proof (cases "uploadedFile (dom s)")
    case None
    with GenerateClicked assms show ?thesis
      by (auto simp: click_no_upload alert_def split: if_splits)
  next
    case (Some u)
    with GenerateClicked assms show ?thesis
      by (auto simp: click_with_upload split: if_splits)
  qed
next
  case (ServiceSettled a oc)
  obtain log where "effects (fst (settle a oc (dom s))) =
        effects (dom s) @ log @ [LoadingHidden, SetControlsDisabled False]"
    and "LoadingHidden \<notin> set log" and "SetControlsDisabled False \<notin> set log"
    using settle_effects [of a oc "dom s"] by blast
  with ServiceSettled assms show ?thesis
    by (auto split: if_splits prod.splits)
next
  case (ImageLoaded im)
  with assms show ?thesis
    by (auto simp: img_onload_def swap_fields split: if_splits)
next
  case (ImageFailed im)
  with assms show ?thesis
    by (auto simp: img_onerror_def swap_fields split: if_splits)
qed

lemma settled_Cons: "settled (e # es) = settled [e] @ settled es"
  by (cases e) simp_all

lemma run_cleanup_count:
  "run es s = Some s' \<Longrightarrow>
     count_list (effects (dom s')) LoadingHidden =
       count_list (effects (dom s)) LoadingHidden + length (settled es)
   \<and> count_list (effects (dom s')) (SetControlsDisabled False) =
       count_list (effects (dom s)) (SetControlsDisabled False) + length (settled es)"
proof (induction es arbitrary: s)
  case Nil
  then show ?case by simp
next
  case (Cons e es)
  then obtain s1 where f: "fire e s = Some s1" and r: "run es s1 = Some s'"
    by (auto split: option.splits)
  from fire_cleanup_count [OF f] Cons.IH [OF r] show ?case
    by (simp add: settled_Cons [of e es])
qed

lemma later_click_removes:
  assumes "fresh s" and "uploadedFile (dom s) = Some u"
    and "fire (GenerateClicked sel) s = Some s'"
  shows "resultsGrid (dom s') = [Placeholder (created (dom s))]
       \<and> (\<forall>a\<in>set (requests s). Placeholder (placeholder a) \<notin> set (resultsGrid (dom s')))
       \<and> (\<forall>im\<in>set (images s). Placeholder (img_placeholder im) \<notin> set (resultsGrid (dom s')))"
proof -
  obtain st1 a where "generateBtn_click sel (dom s) = (st1, Some a, None)"
    and "resultsGrid st1 = [Placeholder (created (dom s))]"
    by (rule click_started [OF assms(2), of sel])
  with assms(3) have "resultsGrid (dom s') = [Placeholder (created (dom s))]"
    by (auto split: if_splits)
  with assms(1) show ?thesis by (auto simp: fresh_def)
qed

text \<open>
  Claim C7. Whatever the outcome of the service call, the handler's last two steps, and
  nothing before them since its \<^verbatim>\<open>await\<close>, hide the loading indicator and enable the
  five controls, once each and in this order, after the branch for the outcome has run.
  The part of the handler before the \<^verbatim>\<open>await\<close> disables the controls and shows the
  indicator, and the later load or error of the image changes nothing but the results
  grid. In a whole session no attempt settles twice, and the indicator has been hidden,
  and the controls enabled, as many times as attempts have settled: once per attempt,
  also when the image fails to load.
\<close>

theorem cleanup_exactly_once:
  "(\<exists>log. effects (fst (settle a oc st)) =
            effects st @ log @ [LoadingHidden, SetControlsDisabled False]
         \<and> LoadingHidden \<notin> set log \<and> SetControlsDisabled True \<notin> set log
         \<and> SetControlsDisabled False \<notin> set log)
   \<and> loadingIndicator_hidden (fst (settle a oc st))
   \<and> \<not> generateBtn_disabled (fst (settle a oc st))
   \<and> \<not> poseSelect_disabled (fst (settle a oc st))
   \<and> \<not> expressionSelect_disabled (fst (settle a oc st))
   \<and> \<not> styleSelect_disabled (fst (settle a oc st))
   \<and> \<not> cameraAngleSelect_disabled (fst (settle a oc st))
   \<and> img_onload im st = st\<lparr>resultsGrid := resultsGrid (img_onload im st)\<rparr>
   \<and> img_onerror im st = st\<lparr>resultsGrid := resultsGrid (img_onerror im st)\<rparr>
   \<and> (uploadedFile st = Some u \<longrightarrow>
        (\<exists>rq. effects (fst (generateBtn_click sel st)) =
                effects st @ [SetControlsDisabled True, LoadingShown, GenerateContent rq]))
   \<and> (run es (start st0) = Some s \<longrightarrow>
        distinct (map placeholder (settled es))
        \<and> count_list (effects (dom s)) LoadingHidden = length (settled es)
        \<and> count_list (effects (dom s)) (SetControlsDisabled False) = length (settled es))"
proof -
  have click: "\<exists>rq. effects (fst (generateBtn_click sel st)) =
                effects st @ [SetControlsDisabled True, LoadingShown, GenerateContent rq]"
    if "uploadedFile st = Some u"
    by (simp add: click_with_upload [OF that])
  have session: "distinct (map placeholder (settled es))
        \<and> count_list (effects (dom s)) LoadingHidden = length (settled es)
        \<and> count_list (effects (dom s)) (SetControlsDisabled False) = length (settled es)"
    if r: "run es (start st0) = Some s"
  proof -
    have "effects (dom (start st0)) = []" by (simp add: start_def)
    with run_cleanup_count [OF r] settled_once [OF start_fresh r] show ?thesis by simp
  qed
  show ?thesis
    using settle_effects [of a oc st] settle_controls [of a oc st] img_only_grid [of im st]
      click session
    by blast
qed

theorem cleanup_exactly_once_witness:
  "uploadedFile ready_page = Some \<lparr>base64 = Some ''QUJD'', mimeType = ''image/png''\<rparr>
   \<and> run (overtaking @ [ServiceSettled first_attempt (Rejected (ServiceError ''quota''))])
         (start blank_page) \<noteq> None
   \<and> (\<exists>rq. effects (fst (generateBtn_click choice ready_page)) =
             effects ready_page @ [SetControlsDisabled True, LoadingShown, GenerateContent rq])
   \<and> (\<exists>log. effects (fst (settle first_attempt (Rejected (ServiceError ''quota'')) ready_page)) =
            effects ready_page @ log @ [LoadingHidden, SetControlsDisabled False]
         \<and> LoadingHidden \<notin> set log \<and> SetControlsDisabled True \<notin> set log
         \<and> SetControlsDisabled False \<notin> set log)
   \<and> loadingIndicator_hidden (fst (settle first_attempt (Rejected (ServiceError ''quota'')) ready_page))
   \<and> \<not> generateBtn_disabled (fst (settle first_attempt (Rejected (ServiceError ''quota'')) ready_page))
   \<and> count_list
        (effects (dom (the (run (overtaking @
           [ServiceSettled first_attempt (Rejected (ServiceError ''quota''))])
           (start blank_page)))))
        LoadingHidden = 1"
proof -
  let ?es = "overtaking @ [ServiceSettled first_attempt (Rejected (ServiceError ''quota''))]"
  have h: "uploadedFile ready_page = Some \<lparr>base64 = Some ''QUJD'', mimeType = ''image/png''\<rparr>"
    by (rule ready_page_fields)
  have r: "run ?es (start blank_page) \<noteq> None"
    by code_simp
  then have r': "run ?es (start blank_page) = Some (the (run ?es (start blank_page)))"
    by simp
  have n: "length (settled ?es) = 1"
    by (simp add: overtaking_def)
  note t = cleanup_exactly_once
    [of first_attempt "Rejected (ServiceError ''quota'')" ready_page first_image
        "\<lparr>base64 = Some ''QUJD'', mimeType = ''image/png''\<rparr>" choice ?es blank_page
        "the (run ?es (start blank_page))"]
  from t r' n have "count_list (effects (dom (the (run ?es (start blank_page))))) LoadingHidden = 1"
    by presburger
  with h r t show ?thesis by blast
qed



section \<open>The image tile and its placeholder\<close>

lemma overtaken_page_fields:
  "resultsGrid overtaken_page = [Placeholder 1]"
  by code_simp

text \<open>
  Claim C8, as amended. A response with an inline image makes the handler build the
  image tile and leave the results grid as it is. When the image has loaded, the tile
  takes the place of the attempt's placeholder; when it fails to load, the error tile
  \<open>Failed to load image.\<close> does. Either happens only if that placeholder is still a child
  of the grid, as it is when nothing came between (then the grid becomes the one tile);
  if it is not, the grid stays as it is.
\<close>

theorem image_tile_swapped_when_image_settles:
  assumes "response_parts r = Inr ps"
    and "firstInline ps = Some src"
  shows "\<exists>im. snd (settle a (Fulfilled r) st) = Some im
          \<and> img_placeholder im = placeholder a
          \<and> container im = build_container src (combined a)
          \<and> resultsGrid (fst (settle a (Fulfilled r) st)) = resultsGrid st
          \<and> resultsGrid (img_onload im st') =
              (if Placeholder (placeholder a) \<in> set (resultsGrid st')
               then replaceChild (ResultContainer (container im)) (Placeholder (placeholder a))
                      (resultsGrid st')
               else resultsGrid st')
          \<and> resultsGrid (img_onerror im st') =
              (if Placeholder (placeholder a) \<in> set (resultsGrid st')
               then replaceChild (ErrorTile ''Failed to load image.'') (Placeholder (placeholder a))
                      (resultsGrid st')
               else resultsGrid st')
          \<and> (uploadedFile st0 = Some u \<longrightarrow>
               (\<exists>st1 a1 st2 im1.
                   generateBtn_click sel st0 = (st1, Some a1, None)
                 \<and> settle a1 (Fulfilled r) st1 = (st2, Some im1)
                 \<and> resultsGrid st2 = [Placeholder (placeholder a1)]
                 \<and> resultsGrid (img_onload im1 st2) = [ResultContainer (container im1)]
                 \<and> resultsGrid (img_onerror im1 st2) = [ErrorTile ''Failed to load image.'']))"
proof -
  let ?im = "\<lambda>b. \<lparr>img_placeholder = placeholder b, container = build_container src (combined b)\<rparr>"
  have settled: "settle b (Fulfilled r) s = (setControlsDisabled False (hide_loading s), Some (?im b))"
    for b s
    by (rule settle_image [OF assms])
  have 1: "snd (settle a (Fulfilled r) st) = Some (?im a)"
    and 2: "img_placeholder (?im a) = placeholder a"
    and 3: "container (?im a) = build_container src (combined a)"
    and 4: "resultsGrid (fst (settle a (Fulfilled r) st)) = resultsGrid st"
    by (simp_all add: settled cleanup_fields)
  have 5: "resultsGrid (img_onload (?im a) st') =
              (if Placeholder (placeholder a) \<in> set (resultsGrid st')
               then replaceChild (ResultContainer (container (?im a))) (Placeholder (placeholder a))
                      (resultsGrid st')
               else resultsGrid st')"
    by (simp add: img_onload_def swap_fields)
  have 6: "resultsGrid (img_onerror (?im a) st') =
              (if Placeholder (placeholder a) \<in> set (resultsGrid st')
               then replaceChild (ErrorTile ''Failed to load image.'') (Placeholder (placeholder a))
                      (resultsGrid st')
               else resultsGrid st')"
    by (simp add: img_onerror_def swap_fields createErrorTile_def)
  have 7: "\<exists>st1 a1 st2 im1.
                   generateBtn_click sel st0 = (st1, Some a1, None)
                 \<and> settle a1 (Fulfilled r) st1 = (st2, Some im1)
                 \<and> resultsGrid st2 = [Placeholder (placeholder a1)]
                 \<and> resultsGrid (img_onload im1 st2) = [ResultContainer (container im1)]
                 \<and> resultsGrid (img_onerror im1 st2) = [ErrorTile ''Failed to load image.'']"
    if up: "uploadedFile st0 = Some u"
  proof -
    obtain st1 a1 where click: "generateBtn_click sel st0 = (st1, Some a1, None)"
      and a1: "placeholder a1 = created st0"
      and grid: "resultsGrid st1 = [Placeholder (created st0)]"
      by (rule click_started [OF up, of sel])
    let ?st2 = "setControlsDisabled False (hide_loading st1)"
    have a: "settle a1 (Fulfilled r) st1 = (?st2, Some (?im a1))"
      by (rule settled)
    have b: "resultsGrid ?st2 = [Placeholder (placeholder a1)]"
      by (simp add: cleanup_fields grid a1)
    have c: "resultsGrid (img_onload (?im a1) ?st2) = [ResultContainer (container (?im a1))]"
      by (simp add: img_onload_def swap_fields cleanup_fields grid a1)
    have d: "resultsGrid (img_onerror (?im a1) ?st2) = [ErrorTile ''Failed to load image.'']"
      by (simp add: img_onerror_def swap_fields cleanup_fields grid a1 createErrorTile_def)
    from click a b c d show ?thesis by blast
  qed
  from 1 2 3 4 5 6 7 show ?thesis by blast
qed

theorem image_tile_swapped_when_image_settles_witness:
  "response_parts with_image =
     Inr [Part None (Some ''here it is''), Part (Some (Blob ''AAAA'' ''image/png'')) None]
   \<and> firstInline [Part None (Some ''here it is''), Part (Some (Blob ''AAAA'' ''image/png'')) None]
       = Some ''data:image/png;base64,AAAA''
   \<and> (\<exists>im. snd (settle first_attempt (Fulfilled with_image)
                  (fst (generateBtn_click choice ready_page))) = Some im
          \<and> resultsGrid (fst (settle first_attempt (Fulfilled with_image)
                  (fst (generateBtn_click choice ready_page)))) = [Placeholder 0]
          \<and> resultsGrid (img_onload im (fst (settle first_attempt (Fulfilled with_image)
                  (fst (generateBtn_click choice ready_page)))))
               = [ResultContainer (container im)]
          \<and> resultsGrid (img_onerror im (fst (settle first_attempt (Fulfilled with_image)
                  (fst (generateBtn_click choice ready_page)))))
               = [ErrorTile ''Failed to load image.''])"
proof -
  let ?ps = "[Part None (Some ''here it is''), Part (Some (Blob ''AAAA'' ''image/png'')) None]"
  let ?st1 = "fst (generateBtn_click choice ready_page)"
  let ?st2 = "fst (settle first_attempt (Fulfilled with_image) ?st1)"
  have h1: "response_parts with_image = Inr ?ps"
    by (rule response_parts_examples)
  have h2: "firstInline ?ps = Some ''data:image/png;base64,AAAA''"
    by simp
  have p: "placeholder first_attempt = 0"
    by (simp add: first_attempt_def)
  from image_tile_swapped_when_image_settles [OF h1 h2, of first_attempt ?st1 ?st2]
  obtain im where "snd (settle first_attempt (Fulfilled with_image) ?st1) = Some im"
    and g: "resultsGrid ?st2 = resultsGrid ?st1"
    and "resultsGrid (img_onload im ?st2) =
              (if Placeholder (placeholder first_attempt) \<in> set (resultsGrid ?st2)
               then replaceChild (ResultContainer (container im))
                      (Placeholder (placeholder first_attempt)) (resultsGrid ?st2)
               else resultsGrid ?st2)"
    and "resultsGrid (img_onerror im ?st2) =
              (if Placeholder (placeholder first_attempt) \<in> set (resultsGrid ?st2)
               then replaceChild (ErrorTile ''Failed to load image.'')
                      (Placeholder (placeholder first_attempt)) (resultsGrid ?st2)
               else resultsGrid ?st2)"
    by blast
  then have "snd (settle first_attempt (Fulfilled with_image) ?st1) = Some im
          \<and> resultsGrid ?st2 = [Placeholder 0]
          \<and> resultsGrid (img_onload im ?st2) = [ResultContainer (container im)]
          \<and> resultsGrid (img_onerror im ?st2) = [ErrorTile ''Failed to load image.'']"
    by (simp add: first_click p)
  with h1 h2 show ?thesis by blast
qed

text \<open>
  The claim as first written promises the error tile whenever the image fails to load.
  The controls are enabled again as soon as the response has arrived, so a second click
  can come before the image has settled; it empties the grid, and the failure of the
  first image then shows nothing.
\<close>

theorem stale_load_failure_counterexample:
  "map_option (resultsGrid \<circ> dom)
     (run [FileChosen [png], ReaderLoaded png ''data:image/png;base64,QUJD'',
           GenerateClicked choice,
           ServiceSettled first_attempt (Fulfilled with_image),
           GenerateClicked choice,
           ImageFailed first_image]
        (start blank_page))
   = Some [Placeholder 1]"
  by code_simp

text \<open>
  Claim C10. Each of the four renderings (the image tile, \<open>Generation failed.\<close>,
  \<open>API error.\<close>, \<open>Failed to load image.\<close>) changes the results grid only by putting its tile
  where the attempt's own placeholder is, all other children staying where they are,
  and only if that placeholder is a child of the grid when the rendering runs;
  otherwise the grid is left as it is. That is so, in every session, for all attempts
  and images still waiting when a later click with an upload present has emptied the
  grid.
\<close>

theorem outcome_replaces_own_placeholder_only:
  "(Placeholder (placeholder a) \<notin> set (resultsGrid st) \<longrightarrow>
      resultsGrid (fst (settle a oc st)) = resultsGrid st)
   \<and> (resultsGrid (fst (settle a oc st)) = resultsGrid st
      \<or> resultsGrid (fst (settle a oc st)) =
          replaceChild (ErrorTile ''Generation failed.'') (Placeholder (placeholder a))
            (resultsGrid st)
      \<or> resultsGrid (fst (settle a oc st)) =
          replaceChild (ErrorTile ''API error.'') (Placeholder (placeholder a)) (resultsGrid st))
   \<and> (snd (settle a oc st) = Some im' \<longrightarrow> img_placeholder im' = placeholder a)
   \<and> resultsGrid (img_onload im st) =
       (if Placeholder (img_placeholder im) \<in> set (resultsGrid st)
        then replaceChild (ResultContainer (container im)) (Placeholder (img_placeholder im))
               (resultsGrid st)
        else resultsGrid st)
   \<and> resultsGrid (img_onerror im st) =
       (if Placeholder (img_placeholder im) \<in> set (resultsGrid st)
        then replaceChild (ErrorTile ''Failed to load image.'') (Placeholder (img_placeholder im))
               (resultsGrid st)
        else resultsGrid st)
   \<and> length (replaceChild t old g) = length g
   \<and> (\<forall>i<length g. g ! i \<noteq> old \<longrightarrow> replaceChild t old g ! i = g ! i)
   \<and> (run es (start st0) = Some s \<and> uploadedFile (dom s) = Some u
        \<and> fire (GenerateClicked sel) s = Some s' \<longrightarrow>
        (\<forall>b\<in>set (requests s). resultsGrid (fst (settle b oc (dom s'))) = resultsGrid (dom s'))
        \<and> (\<forall>i\<in>set (images s).
              resultsGrid (img_onload i (dom s')) = resultsGrid (dom s')
              \<and> resultsGrid (img_onerror i (dom s')) = resultsGrid (dom s')))"
proof -
  have settle_grid:
    "(Placeholder (placeholder a) \<notin> set (resultsGrid st) \<longrightarrow>
        resultsGrid (fst (settle a oc st)) = resultsGrid st)
     \<and> (resultsGrid (fst (settle a oc st)) = resultsGrid st
        \<or> resultsGrid (fst (settle a oc st)) =
            replaceChild (ErrorTile ''Generation failed.'') (Placeholder (placeholder a))
              (resultsGrid st)
        \<or> resultsGrid (fst (settle a oc st)) =
            replaceChild (ErrorTile ''API error.'') (Placeholder (placeholder a)) (resultsGrid st))
     \<and> (snd (settle a oc st) = Some im' \<longrightarrow> img_placeholder im' = placeholder a)"
    for a st
  proof (cases rule: settle_cases [of a oc st])
    case (thrown e)
    then show ?thesis by (simp add: settle_thrown cleanup_fields swap_fields)
  next
    case no_image
    then show ?thesis by (simp add: cleanup_fields swap_fields)
  next
    case (image src)
    then show ?thesis by (auto simp: cleanup_fields)
  qed
  have load: "resultsGrid (img_onload im st) =
       (if Placeholder (img_placeholder im) \<in> set (resultsGrid st)
        then replaceChild (ResultContainer (container im)) (Placeholder (img_placeholder im))
               (resultsGrid st)
        else resultsGrid st)" for im st
    by (simp add: img_onload_def swap_fields)
  have err: "resultsGrid (img_onerror im st) =
       (if Placeholder (img_placeholder im) \<in> set (resultsGrid st)
        then replaceChild (ErrorTile ''Failed to load image.'') (Placeholder (img_placeholder im))
               (resultsGrid st)
        else resultsGrid st)" for im st
    by (simp add: img_onerror_def swap_fields createErrorTile_def)
  have frame: "length (replaceChild t old g) = length g"
    "\<forall>i<length g. g ! i \<noteq> old \<longrightarrow> replaceChild t old g ! i = g ! i"
    by (simp_all add: replaceChild_frame)
  have stale: "(\<forall>b\<in>set (requests s). resultsGrid (fst (settle b oc (dom s'))) = resultsGrid (dom s'))
        \<and> (\<forall>i\<in>set (images s).
              resultsGrid (img_onload i (dom s')) = resultsGrid (dom s')
              \<and> resultsGrid (img_onerror i (dom s')) = resultsGrid (dom s'))"
    if r: "run es (start st0) = Some s" and u: "uploadedFile (dom s) = Some u"
      and f: "fire (GenerateClicked sel) s = Some s'"
  proof -
    have "fresh s" using start_fresh r by (rule run_fresh)
    from later_click_removes [OF this u f]
    have gone: "\<forall>b\<in>set (requests s). Placeholder (placeholder b) \<notin> set (resultsGrid (dom s'))"
      "\<forall>i\<in>set (images s). Placeholder (img_placeholder i) \<notin> set (resultsGrid (dom s'))"
      by blast+
    from gone(1) settle_grid have "\<forall>b\<in>set (requests s).
        resultsGrid (fst (settle b oc (dom s'))) = resultsGrid (dom s')"
      by blast
    moreover from gone(2) have "\<forall>i\<in>set (images s).
              resultsGrid (img_onload i (dom s')) = resultsGrid (dom s')
              \<and> resultsGrid (img_onerror i (dom s')) = resultsGrid (dom s')"
      by (simp add: load err)
    ultimately show ?thesis by blast
  qed
  from settle_grid [of a st] load [of im st] err [of im st] frame stale show ?thesis
    by blast
qed

theorem outcome_replaces_own_placeholder_only_witness:
  "resultsGrid overtaken_page = [Placeholder 1]
   \<and> placeholder first_attempt = 0
   \<and> resultsGrid (fst (settle first_attempt (Rejected (ServiceError ''quota'')) overtaken_page))
       = [Placeholder 1]
   \<and> resultsGrid (img_onload first_image overtaken_page) = [Placeholder 1]
   \<and> resultsGrid (img_onerror first_image overtaken_page) = [Placeholder 1]"
proof -
  have g: "resultsGrid overtaken_page = [Placeholder 1]"
    by (rule overtaken_page_fields)
  have p: "placeholder first_attempt = 0" "img_placeholder first_image = 0"
    by (simp_all add: first_attempt_def first_image_def)
  note t = outcome_replaces_own_placeholder_only
    [of first_attempt overtaken_page "Rejected (ServiceError ''quota'')" _ first_image]
  from t have "resultsGrid (fst (settle first_attempt (Rejected (ServiceError ''quota''))
                  overtaken_page)) = [Placeholder 1]"
    by (simp add: g p)
  moreover from t have "resultsGrid (img_onload first_image overtaken_page) = [Placeholder 1]"
    by (simp add: g p)
  moreover from t have "resultsGrid (img_onerror first_image overtaken_page) = [Placeholder 1]"
    by (simp add: g p)
  ultimately show ?thesis using g p by blast
qed


end
